theory Spec2Isabelle
  imports Main "HOL-Library.Sublist"
begin

section \<open>JSON values and JavaScript object spread\<close>

text \<open>
  Values exchanged with the model provider and the tools. Numbers are restricted to
  integers; an object is its list of own properties in insertion order.
\<close>

datatype json =
    JNull
  | JBool bool
  | JNum int
  | JStr string
  | JArr "json list"
  | JObj "(string \<times> json) list"

text \<open>The decimal digits of a number, as a template literal prints it.\<close>

fun show_nat :: "nat \<Rightarrow> string" where
  "show_nat n =
     (if n < 10 then [''0123456789'' ! n]
      else show_nat (n div 10) @ [''0123456789'' ! (n mod 10)])"

declare show_nat.simps [simp del]

text \<open>JavaScript truthiness of a JSON value.\<close>

fun truthy :: "json \<Rightarrow> bool" where
  "truthy JNull = False"
| "truthy (JBool b) = b"
| "truthy (JNum n) = (n \<noteq> 0)"
| "truthy (JStr s) = (s \<noteq> [])"
| "truthy (JArr xs) = True"
| "truthy (JObj ps) = True"

text \<open>Truthiness of an optional string: \<open>undefined\<close> and the empty string are falsy.\<close>

fun truthy_str :: "string option \<Rightarrow> bool" where
  "truthy_str None = False"
| "truthy_str (Some s) = (s \<noteq> [])"

text \<open>Assignment \<open>obj[k] = v\<close>: an existing key keeps its place, a new key goes last.\<close>

fun set_prop :: "string \<Rightarrow> json \<Rightarrow> (string \<times> json) list \<Rightarrow> (string \<times> json) list" where
  "set_prop k v [] = [(k, v)]"
| "set_prop k v ((k', v') # ps) =
     (if k = k' then (k, v) # ps else (k', v') # set_prop k v ps)"

text \<open>The own enumerable properties that \<open>...x\<close> copies inside an object literal.\<close>

fun ownProps :: "json \<Rightarrow> (string \<times> json) list" where
  "ownProps (JObj ps) = ps"
| "ownProps (JArr xs) = zip (map show_nat [0..<length xs]) xs"
| "ownProps (JStr s) = zip (map show_nat [0..<length s]) (map (\<lambda>c. JStr [c]) s)"
| "ownProps _ = []"

fun ownProps_opt :: "json option \<Rightarrow> (string \<times> json) list" where
  "ownProps_opt None = []"
| "ownProps_opt (Some x) = ownProps x"

definition assign_all :: "(string \<times> json) list \<Rightarrow> (string \<times> json) list \<Rightarrow> (string \<times> json) list" where
  "assign_all src dst = fold (\<lambda>(k, v). set_prop k v) src dst"

text \<open>The object literal \<open>{ ...a, ...b }\<close>.\<close>

definition spread :: "(string \<times> json) list \<Rightarrow> (string \<times> json) list \<Rightarrow> (string \<times> json) list" where
  "spread a b = assign_all b (assign_all a [])"

text \<open>Property read \<open>obj[k]\<close> (\<open>None\<close> is \<open>undefined\<close>).\<close>

definition get_prop :: "(string \<times> json) list \<Rightarrow> string \<Rightarrow> json option" where
  "get_prop ps k = map_of ps k"

section \<open>Data model of the provider (providers/openai/index.ts)\<close>

datatype role = System | User | Assistant | Tool

record tool_call =
  tc_id :: string
  tc_name :: string
  tc_arguments :: string

record message =
  msg_role :: role
  msg_content :: "string option"
  msg_tool_calls :: "tool_call list option"
  msg_tool_call_id :: "string option"

record tool =
  tool_id :: string
  tool_description :: string
  tool_parameters :: json
  tool_params :: "json option"

record request =
  req_apiKey :: "string option"
  req_model :: "string option"
  req_systemPrompt :: "string option"
  req_context :: "string option"
  req_messages :: "message list option"
  req_tools :: "tool list option"
  req_temperature :: "json option"
  req_maxTokens :: "json option"
  req_responseFormat :: "json option"

record fn_decl =
  fn_name :: string
  fn_description :: string
  fn_parameters :: json

record payload =
  p_model :: string
  p_messages :: "message list"
  p_temperature :: "json option"
  p_max_tokens :: "json option"
  p_response_format :: "json option"
  p_tools :: "fn_decl list option"
  p_tool_choice :: "string option"

record usage =
  prompt_tokens :: "nat option"
  completion_tokens :: "nat option"
  total_tokens :: "nat option"

record resp_message =
  rm_content :: "string option"
  rm_tool_calls :: "tool_call list option"

text \<open>A response: each choice may or may not carry a message.\<close>

record response =
  choices :: "resp_message option list"
  resp_usage :: "usage option"

record tool_result =
  tr_success :: bool
  tr_output :: json

datatype seg_kind = Model | ToolSeg

record time_segment =
  seg_type :: seg_kind
  seg_name :: string
  seg_startTime :: int
  seg_endTime :: int
  seg_duration :: int

text \<open>Timestamps stay numeric: \<open>toISOString\<close> only changes their printed form.\<close>

record tool_call_log =
  log_name :: string
  log_arguments :: json
  log_startTime :: int
  log_endTime :: int
  log_duration :: int
  log_result :: json

record tokens =
  prompt :: nat
  completion :: nat
  total :: nat

record timing =
  t_startTime :: int
  t_endTime :: int
  t_duration :: int
  t_modelTime :: int
  t_toolsTime :: int
  t_firstResponseTime :: int
  t_iterations :: nat
  t_timeSegments :: "time_segment list"

record provider_response =
  pr_content :: string
  pr_model :: "string option"
  pr_tokens :: tokens
  pr_toolCalls :: "tool_call_log list option"
  pr_toolResults :: "json list option"
  pr_timing :: timing

text \<open>
  A thrown \<open>Error\<close>: its message and, for the enhanced error of the catch block, the
  attached timing (start, end, duration).
\<close>

datatype error = Error string "(int \<times> int \<times> int) option"

text \<open>
  The outside world, threaded as a state \<open>'w\<close>: the completion endpoint
  (\<open>Inl\<close> is a rejected call with its message), the tool executor (\<open>None\<close> is a
  thrown exception), the clock \<open>Date.now\<close>, and the JSON library (\<open>None\<close> is a
  \<open>SyntaxError\<close> of \<open>JSON.parse\<close>).
\<close>

record 'w env =
  create :: "payload \<Rightarrow> 'w \<Rightarrow> (string + response) \<times> 'w"
  executeTool :: "string \<Rightarrow> (string \<times> json) list \<Rightarrow> 'w \<Rightarrow> tool_result option \<times> 'w"
  now :: "'w \<Rightarrow> int \<times> 'w"
  parse :: "string \<Rightarrow> json option"
  stringify :: "json \<Rightarrow> string"

text \<open>
  Instrumentation, not a variable of the source: the outbound calls in the order they
  are issued, each model call with the answer it got, and for each batch of tool calls
  the two clock readings the loop takes around it (\<open>toolsStartTime\<close> and the
  \<open>Date.now()\<close> of \<open>thisToolsTime\<close>).
\<close>

datatype event =
    ModelCall payload "string + response"
  | ToolExec string "(string \<times> json) list"
  | ToolBatch int int

text \<open>The local variables of the conversation loop.\<close>

record lstate =
  content :: string
  tokens :: tokens
  toolCalls :: "tool_call_log list"
  toolResults :: "json list"
  currentMessages :: "message list"
  modelTime :: int
  toolsTime :: int
  timeSegments :: "time_segment list"

definition MAX_ITERATIONS :: nat where
  "MAX_ITERATIONS = 10"

section \<open>The request and its payload\<close>

definition or_zero :: "nat option \<Rightarrow> nat" where
  "or_zero x = (case x of None \<Rightarrow> 0 | Some n \<Rightarrow> n)"

definition or_default :: "string option \<Rightarrow> string \<Rightarrow> string" where
  "or_default x d = (case x of None \<Rightarrow> d | Some s \<Rightarrow> if s = [] then d else s)"

definition first_message :: "response \<Rightarrow> resp_message option" where
  "first_message r = (case choices r of [] \<Rightarrow> None | c # _ \<Rightarrow> c)"

definition response_content :: "response \<Rightarrow> string option" where
  "response_content r = (case first_message r of None \<Rightarrow> None | Some m \<Rightarrow> rm_content m)"

definition response_tool_calls :: "response \<Rightarrow> tool_call list option" where
  "response_tool_calls r = (case first_message r of None \<Rightarrow> None | Some m \<Rightarrow> rm_tool_calls m)"

definition buildMessages :: "request \<Rightarrow> message list" where
  "buildMessages request =
     (if truthy_str (req_systemPrompt request)
      then [\<lparr>msg_role = System, msg_content = req_systemPrompt request,
             msg_tool_calls = None, msg_tool_call_id = None\<rparr>] else [])
     @ (if truthy_str (req_context request)
        then [\<lparr>msg_role = User, msg_content = req_context request,
               msg_tool_calls = None, msg_tool_call_id = None\<rparr>] else [])
     @ (case req_messages request of None \<Rightarrow> [] | Some ms \<Rightarrow> ms)"

definition transformTools :: "request \<Rightarrow> fn_decl list option" where
  "transformTools request =
     (case req_tools request of
        None \<Rightarrow> None
      | Some ts \<Rightarrow>
          if ts = [] then None
          else Some (map (\<lambda>t. \<lparr>fn_name = tool_id t, fn_description = tool_description t,
                                fn_parameters = tool_parameters t\<rparr>) ts))"

definition or_json :: "json option \<Rightarrow> json \<Rightarrow> json" where
  "or_json x d = (case x of None \<Rightarrow> d | Some v \<Rightarrow> if truthy v then v else d)"

definition responseFormatPayload :: "json \<Rightarrow> json" where
  "responseFormatPayload rf =
     JObj [(''type'', JStr ''json_schema''),
           (''json_schema'',
              JObj [(''name'', or_json (get_prop (ownProps rf) ''name'') (JStr ''response_schema'')),
                    (''schema'', or_json (get_prop (ownProps rf) ''schema'') rf),
                    (''strict'', JBool (get_prop (ownProps rf) ''strict'' \<noteq> Some (JBool False)))])]"

definition buildPayload :: "request \<Rightarrow> payload" where
  "buildPayload request =
     \<lparr>p_model = or_default (req_model request) ''gpt-4o'',
      p_messages = buildMessages request,
      p_temperature = req_temperature request,
      p_max_tokens = req_maxTokens request,
      p_response_format =
        (case req_responseFormat request of
           None \<Rightarrow> None
         | Some rf \<Rightarrow> if truthy rf then Some (responseFormatPayload rf) else None),
      p_tools = transformTools request,
      p_tool_choice = (case transformTools request of None \<Rightarrow> None | Some _ \<Rightarrow> Some ''auto'')\<rparr>"

section \<open>The conversation loop of executeRequest\<close>

text \<open>\<open>request.tools?.find((t) => t.id === toolName)\<close>\<close>

definition findTool :: "request \<Rightarrow> string \<Rightarrow> tool option" where
  "findTool request toolName =
     find (\<lambda>t. tool_id t = toolName)
       (case req_tools request of None \<Rightarrow> [] | Some ts \<Rightarrow> ts)"

text \<open>
  One pass of the body of \<open>for (const toolCall of toolCallsInResponse)\<close>. Every
  exception inside it is caught by the inner \<open>try\<close>, which only logs; \<open>continue\<close>
  and the caught exceptions both leave the loop variables as they are.
\<close>

definition processToolCall ::
  "'w env \<Rightarrow> request \<Rightarrow> tool_call \<Rightarrow> lstate \<times> event list \<times> 'w \<Rightarrow> lstate \<times> event list \<times> 'w" where
  "processToolCall env request toolCall s =
     (case s of (st, tr, w) \<Rightarrow>
      let toolName = tc_name toolCall in
      case parse env (tc_arguments toolCall) of
        None \<Rightarrow> (st, tr, w)
      | Some toolArgs \<Rightarrow>
          (case findTool request toolName of
             None \<Rightarrow> (st, tr, w)
           | Some tool \<Rightarrow>
               (case now env w of (toolCallStartTime, w1) \<Rightarrow>
                let mergedArgs = spread (ownProps_opt (tool_params tool)) (ownProps toolArgs);
                    tr1 = tr @ [ToolExec toolName mergedArgs]
                in case executeTool env toolName mergedArgs w1 of
                     (None, w2) \<Rightarrow> (st, tr1, w2)
                   | (Some result, w2) \<Rightarrow>
                       (case now env w2 of (toolCallEndTime, w3) \<Rightarrow>
                        let toolCallDuration = toolCallEndTime - toolCallStartTime in
                        if \<not> tr_success result then (st, tr1, w3)
                        else
                          (st\<lparr>timeSegments := timeSegments st @
                                 [\<lparr>seg_type = ToolSeg, seg_name = toolName,
                                   seg_startTime = toolCallStartTime,
                                   seg_endTime = toolCallEndTime,
                                   seg_duration = toolCallDuration\<rparr>],
                               toolResults := toolResults st @ [tr_output result],
                               toolCalls := toolCalls st @
                                 [\<lparr>log_name = toolName, log_arguments = toolArgs,
                                   log_startTime = toolCallStartTime,
                                   log_endTime = toolCallEndTime,
                                   log_duration = toolCallDuration,
                                   log_result = tr_output result\<rparr>],
                               currentMessages := currentMessages st @
                                 [\<lparr>msg_role = Assistant, msg_content = None,
                                   msg_tool_calls = Some [\<lparr>tc_id = tc_id toolCall,
                                      tc_name = toolName,
                                      tc_arguments = tc_arguments toolCall\<rparr>],
                                   msg_tool_call_id = None\<rparr>,
                                  \<lparr>msg_role = Tool,
                                   msg_content = Some (stringify env (tr_output result)),
                                   msg_tool_calls = None,
                                   msg_tool_call_id = Some (tc_id toolCall)\<rparr>]\<rparr>,
                           tr1, w3)))))"

definition processToolCalls ::
  "'w env \<Rightarrow> request \<Rightarrow> tool_call list \<Rightarrow> lstate \<times> event list \<times> 'w \<Rightarrow> lstate \<times> event list \<times> 'w" where
  "processToolCalls env request toolCallsInResponse s =
     fold (processToolCall env request) toolCallsInResponse s"

text \<open>
  The body of the \<open>while\<close> loop after the check for tool calls: the batch of tool
  calls, then the next model call. \<open>Inl\<close> is the rejection of that call, which leaves
  the loop for the outer \<open>catch\<close>.
\<close>

definition iteration ::
  "'w env \<Rightarrow> request \<Rightarrow> payload \<Rightarrow> nat \<Rightarrow> tool_call list \<Rightarrow> lstate \<Rightarrow> event list \<Rightarrow> 'w
     \<Rightarrow> (string + response \<times> lstate) \<times> event list \<times> 'w" where
  "iteration env request payload iterationCount toolCallsInResponse st tr w =
     (case now env w of (toolsStartTime, w1) \<Rightarrow>
      case processToolCalls env request toolCallsInResponse (st, tr, w1) of (st1, tr1, w2) \<Rightarrow>
      case now env w2 of (toolsEndTime, w3) \<Rightarrow>
      let thisToolsTime = toolsEndTime - toolsStartTime;
          st2 = st1\<lparr>toolsTime := toolsTime st1 + thisToolsTime\<rparr>;
          tr2 = tr1 @ [ToolBatch toolsStartTime toolsEndTime];
          nextPayload = payload\<lparr>p_messages := currentMessages st2\<rparr>
      in case now env w3 of (nextModelStartTime, w4) \<Rightarrow>
         case create env nextPayload w4 of
           (Inl msg, w5) \<Rightarrow> (Inl msg, tr2 @ [ModelCall nextPayload (Inl msg)], w5)
         | (Inr currentResponse, w5) \<Rightarrow>
             (case now env w5 of (nextModelEndTime, w6) \<Rightarrow>
              let thisModelTime = nextModelEndTime - nextModelStartTime;
                  st3 = st2\<lparr>timeSegments := timeSegments st2 @
                          [\<lparr>seg_type = Model,
                            seg_name = ''Model response (iteration '' @
                                       show_nat (iterationCount + 1) @ '')'',
                            seg_startTime = nextModelStartTime,
                            seg_endTime = nextModelEndTime,
                            seg_duration = thisModelTime\<rparr>],
                        modelTime := modelTime st2 + thisModelTime\<rparr>;
                  st4 = (if truthy_str (response_content currentResponse)
                         then st3\<lparr>content := or_default (response_content currentResponse) []\<rparr>
                         else st3);
                  st5 = (case resp_usage currentResponse of
                           None \<Rightarrow> st4
                         | Some u \<Rightarrow>
                             st4\<lparr>tokens :=
                                 \<lparr>prompt = prompt (tokens st4) + or_zero (prompt_tokens u),
                                  completion = completion (tokens st4) + or_zero (completion_tokens u),
                                  total = total (tokens st4) + or_zero (total_tokens u)\<rparr>\<rparr>)
              in (Inr (currentResponse, st5),
                  tr2 @ [ModelCall nextPayload (Inr currentResponse)], w6)))"

text \<open>
  \<open>while (iterationCount < MAX_ITERATIONS)\<close>, with \<open>break\<close> when the current
  response asks for no tool call. The result carries the final \<open>iterationCount\<close>.
\<close>

function loop ::
  "'w env \<Rightarrow> request \<Rightarrow> payload \<Rightarrow> nat \<Rightarrow> response \<Rightarrow> lstate \<Rightarrow> event list \<Rightarrow> 'w
     \<Rightarrow> (string + nat \<times> lstate) \<times> event list \<times> 'w" where
  "loop env request payload iterationCount currentResponse st tr w =
     (if iterationCount < MAX_ITERATIONS then
        (case response_tool_calls currentResponse of
           None \<Rightarrow> (Inr (iterationCount, st), tr, w)
         | Some toolCallsInResponse \<Rightarrow>
             if toolCallsInResponse = [] then (Inr (iterationCount, st), tr, w)
             else
               (case iteration env request payload iterationCount toolCallsInResponse st tr w of
                  (Inl msg, tr', w') \<Rightarrow> (Inl msg, tr', w')
                | (Inr (nextResponse, st'), tr', w') \<Rightarrow>
                    loop env request payload (iterationCount + 1) nextResponse st' tr' w'))
      else (Inr (iterationCount, st), tr, w))"
  by pat_completeness auto
termination
  by (relation "measure (\<lambda>(env, request, payload, iterationCount, r). MAX_ITERATIONS - iterationCount)")
     auto

declare loop.simps [simp del]

text \<open>The outer \<open>catch\<close>: the error is thrown again with the timing attached.\<close>

definition enhancedError :: "'w env \<Rightarrow> int \<Rightarrow> string \<Rightarrow> 'w \<Rightarrow> error \<times> 'w" where
  "enhancedError env providerStartTime msg w =
     (case now env w of (providerEndTime, w') \<Rightarrow>
        (Error msg (Some (providerStartTime, providerEndTime, providerEndTime - providerStartTime)),
         w'))"

definition executeRequest ::
  "'w env \<Rightarrow> request \<Rightarrow> 'w \<Rightarrow> (error + provider_response) \<times> event list \<times> 'w" where
  "executeRequest env request w =
     (if \<not> truthy_str (req_apiKey request)
      then (Inl (Error ''API key is required for OpenAI'' None), [], w)
      else
        let allMessages = buildMessages request;
            payload = buildPayload request
        in case now env w of (providerStartTime, w0) \<Rightarrow>
           case now env w0 of (initialCallTime, w1) \<Rightarrow>
           case create env payload w1 of
             (Inl msg, w2) \<Rightarrow>
               (case enhancedError env providerStartTime msg w2 of (e, w3) \<Rightarrow>
                  (Inl e, [ModelCall payload (Inl msg)], w3))
           | (Inr currentResponse, w2) \<Rightarrow>
               (case now env w2 of (t, w3) \<Rightarrow>
                let firstResponseTime = t - initialCallTime;
                    st = \<lparr>content = or_default (response_content currentResponse) [],
                          tokens =
                            (case resp_usage currentResponse of
                               None \<Rightarrow> \<lparr>prompt = 0, completion = 0, total = 0\<rparr>
                             | Some u \<Rightarrow>
                                 \<lparr>prompt = or_zero (prompt_tokens u),
                                  completion = or_zero (completion_tokens u),
                                  total = or_zero (total_tokens u)\<rparr>),
                          toolCalls = [],
                          toolResults = [],
                          currentMessages = allMessages,
                          modelTime = firstResponseTime,
                          toolsTime = 0,
                          timeSegments =
                            [\<lparr>seg_type = Model, seg_name = ''Initial response'',
                              seg_startTime = initialCallTime,
                              seg_endTime = initialCallTime + firstResponseTime,
                              seg_duration = firstResponseTime\<rparr>]\<rparr>
                in case loop env request payload 0 currentResponse st
                          [ModelCall payload (Inr currentResponse)] w3 of
                     (Inl msg, tr, w4) \<Rightarrow>
                       (case enhancedError env providerStartTime msg w4 of (e, w5) \<Rightarrow>
                          (Inl e, tr, w5))
                   | (Inr (iterationCount, st'), tr, w4) \<Rightarrow>
                       (case now env w4 of (providerEndTime, w5) \<Rightarrow>
                          (Inr \<lparr>pr_content = content st',
                                pr_model = req_model request,
                                pr_tokens = tokens st',
                                pr_toolCalls =
                                  (if toolCalls st' \<noteq> [] then Some (toolCalls st') else None),
                                pr_toolResults =
                                  (if toolResults st' \<noteq> [] then Some (toolResults st') else None),
                                pr_timing =
                                  \<lparr>t_startTime = providerStartTime,
                                   t_endTime = providerEndTime,
                                   t_duration = providerEndTime - providerStartTime,
                                   t_modelTime = modelTime st',
                                   t_toolsTime = toolsTime st',
                                   t_firstResponseTime = firstResponseTime,
                                   t_iterations = iterationCount + 1,
                                   t_timeSegments = timeSegments st'\<rparr>\<rparr>,
                           tr, w5))))"

section \<open>Observations on a run\<close>

fun is_model_call :: "event \<Rightarrow> bool" where
  "is_model_call (ModelCall p r) = True"
| "is_model_call (ToolExec n a) = False"
| "is_model_call (ToolBatch t0 t1) = False"

definition model_calls :: "event list \<Rightarrow> nat" where
  "model_calls tr = length (filter is_model_call tr)"

text \<open>The response asks for at least one tool invocation.\<close>

definition requests_tool :: "response \<Rightarrow> bool" where
  "requests_tool r = (case response_tool_calls r of None \<Rightarrow> False | Some tcs \<Rightarrow> tcs \<noteq> [])"

text \<open>A provider that answers every call, each time asking for a tool invocation.\<close>

definition always_requests :: "'w env \<Rightarrow> bool" where
  "always_requests env = (\<forall>p w. \<exists>r. fst (create env p w) = Inr r \<and> requests_tool r)"

text \<open>The usage a model call reported, as the code reads it (absent counts as 0).\<close>

definition usage_of :: "response \<Rightarrow> tokens" where
  "usage_of r =
     (case resp_usage r of
        None \<Rightarrow> \<lparr>prompt = 0, completion = 0, total = 0\<rparr>
      | Some u \<Rightarrow> \<lparr>prompt = or_zero (prompt_tokens u),
                   completion = or_zero (completion_tokens u),
                   total = or_zero (total_tokens u)\<rparr>)"

fun event_usage :: "event \<Rightarrow> tokens" where
  "event_usage (ModelCall p (Inr r)) = usage_of r"
| "event_usage (ModelCall p (Inl msg)) = \<lparr>prompt = 0, completion = 0, total = 0\<rparr>"
| "event_usage (ToolExec n a) = \<lparr>prompt = 0, completion = 0, total = 0\<rparr>"
| "event_usage (ToolBatch t0 t1) = \<lparr>prompt = 0, completion = 0, total = 0\<rparr>"

definition add_tokens :: "tokens \<Rightarrow> tokens \<Rightarrow> tokens" where
  "add_tokens a b =
     \<lparr>prompt = prompt a + prompt b, completion = completion a + completion b,
      total = total a + total b\<rparr>"

text \<open>The sum of the usage reported by all the model calls of a run.\<close>

definition usage_total :: "event list \<Rightarrow> tokens" where
  "usage_total tr =
     \<lparr>prompt = sum_list (map (\<lambda>e. prompt (event_usage e)) tr),
      completion = sum_list (map (\<lambda>e. completion (event_usage e)) tr),
      total = sum_list (map (\<lambda>e. total (event_usage e)) tr)\<rparr>"

text \<open>The identifiers of the tools the caller supplied.\<close>

definition tool_ids :: "request \<Rightarrow> string set" where
  "tool_ids request = tool_id ` set (case req_tools request of None \<Rightarrow> [] | Some ts \<Rightarrow> ts)"

definition sum_durations :: "seg_kind \<Rightarrow> time_segment list \<Rightarrow> int" where
  "sum_durations k segs = sum_list (map seg_duration (filter (\<lambda>s. seg_type s = k) segs))"

text \<open>
  The wall-clock span of a batch of tool calls, from the reading before its first call
  to the reading after its last.
\<close>

fun event_span :: "event \<Rightarrow> int" where
  "event_span (ToolBatch t0 t1) = t1 - t0"
| "event_span (ModelCall p r) = 0"
| "event_span (ToolExec n a) = 0"

definition batch_time :: "event list \<Rightarrow> int" where
  "batch_time tr = sum_list (map event_span tr)"

text \<open>
  The clock never runs backwards: what \<open>Date.now\<close> would read does not decrease
  across a clock read, a model call or a tool execution.
\<close>

definition clock_monotone :: "'w env \<Rightarrow> bool" where
  "clock_monotone env =
     ((\<forall>w. fst (now env w) \<le> fst (now env (snd (now env w)))) \<and>
      (\<forall>p w. fst (now env w) \<le> fst (now env (snd (create env p w)))) \<and>
      (\<forall>n a w. fst (now env w) \<le> fst (now env (snd (executeTool env n a w)))))"

text \<open>The two messages the loop appends for a tool call that succeeded with \<open>out\<close>.\<close>

definition call_messages :: "'w env \<Rightarrow> tool_call \<times> json \<Rightarrow> message list" where
  "call_messages env x =
     (case x of (toolCall, out) \<Rightarrow>
        [\<lparr>msg_role = Assistant, msg_content = None,
          msg_tool_calls = Some [\<lparr>tc_id = tc_id toolCall, tc_name = tc_name toolCall,
                                  tc_arguments = tc_arguments toolCall\<rparr>],
          msg_tool_call_id = None\<rparr>,
         \<lparr>msg_role = Tool, msg_content = Some (stringify env out),
          msg_tool_calls = None, msg_tool_call_id = Some (tc_id toolCall)\<rparr>])"

text \<open>
  What makes a tool call successful, and the world it leaves: its arguments parse, its
  tool is among the caller's, and the execution returns a result with
  \<open>success\<close> set; then the call yields the output of that result.
\<close>

definition call_outcome :: "'w env \<Rightarrow> request \<Rightarrow> tool_call \<Rightarrow> 'w \<Rightarrow> json option \<times> 'w" where
  "call_outcome env request tc w =
     (case parse env (tc_arguments tc) of
        None \<Rightarrow> (None, w)
      | Some toolArgs \<Rightarrow>
          (case findTool request (tc_name tc) of
             None \<Rightarrow> (None, w)
           | Some tool \<Rightarrow>
               (case executeTool env (tc_name tc)
                       (spread (ownProps_opt (tool_params tool)) (ownProps toolArgs))
                       (snd (now env w)) of
                  (None, w2) \<Rightarrow> (None, w2)
                | (Some result, w2) \<Rightarrow>
                    (if tr_success result then Some (tr_output result) else None,
                     snd (now env w2)))))"

text \<open>The successful calls of a batch that starts in \<open>w\<close>, in call order, with their outputs.\<close>

fun successful_calls :: "'w env \<Rightarrow> request \<Rightarrow> tool_call list \<Rightarrow> 'w \<Rightarrow> (tool_call \<times> json) list" where
  "successful_calls env request [] w = []"
| "successful_calls env request (tc # tcs) w =
     (case call_outcome env request tc w of
        (None, w') \<Rightarrow> successful_calls env request tcs w'
      | (Some out, w') \<Rightarrow> (tc, out) # successful_calls env request tcs w')"

text \<open>The world a batch of tool calls that starts in \<open>w\<close> leaves.\<close>

fun world_after_calls :: "'w env \<Rightarrow> request \<Rightarrow> tool_call list \<Rightarrow> 'w \<Rightarrow> 'w" where
  "world_after_calls env request [] w = w"
| "world_after_calls env request (tc # tcs) w =
     world_after_calls env request tcs (snd (call_outcome env request tc w))"

definition assistant_messages :: "message list \<Rightarrow> message list" where
  "assistant_messages ms = filter (\<lambda>m. msg_role m = Assistant) ms"


definition model_time_inv :: "lstate \<Rightarrow> bool" where
  "model_time_inv st = (modelTime st = sum_durations Model (timeSegments st))"

definition batch_time_inv :: "lstate \<Rightarrow> event list \<Rightarrow> bool" where
  "batch_time_inv st tr = (toolsTime st = batch_time tr)"

definition tool_time_inv :: "lstate \<Rightarrow> bool" where
  "tool_time_inv st = (sum_durations ToolSeg (timeSegments st) \<le> toolsTime st)"

text \<open>An object as JavaScript has it: no key twice.\<close>

definition wf_object :: "(string \<times> json) list \<Rightarrow> bool" where
  "wf_object ps = distinct (map fst ps)"

section \<open>Batch runs of the control bar (control-bar.tsx)\<close>

record notification =
  n_type :: string
  n_message :: string
  n_workflowId :: "string option"

text \<open>The state of the component that \<open>handleMultipleRuns\<close> reads and writes.\<close>

record control_bar =
  isExecuting :: bool
  activeWorkflowId :: "string option"
  runCount :: nat
  completedRuns :: nat
  isMultiRunning :: bool
  showRunProgress :: bool
  hideProgressTimer :: bool
  isCancelling :: bool
  cancelFlagRef :: bool
  notifications :: "notification list"

datatype run_outcome = RunCompleted | RunRaised

datatype fetch_outcome = FetchResolves | FetchRejects | FetchThrows

text \<open>
  The outside world of a batch: the awaited run of the workflow, whether the cancel
  button was clicked while that run was awaited, and the \<open>fetch\<close> of the statistics
  endpoint.
\<close>

record 'w batch_env =
  handleRunWorkflow :: "'w \<Rightarrow> run_outcome \<times> 'w"
  cancelClicked :: "'w \<Rightarrow> bool"
  fetch :: "string \<Rightarrow> 'w \<Rightarrow> fetch_outcome \<times> 'w"

text \<open>Instrumentation: the runs started, the statistics calls issued, the errors logged.\<close>

datatype batch_event = RunStarted nat | StatsCall string | LogError string

text \<open>How the \<open>for\<close> loop is left.\<close>

datatype loop_exit = AllRuns | Break | Thrown

text \<open>The branch of the final \<open>if\<close> chain, which decides the notification.\<close>

datatype outcome = completed | cancelled | error

text \<open>The \<open>onClick\<close> of the cancel button.\<close>

definition cancelButton :: "control_bar \<Rightarrow> control_bar" where
  "cancelButton st = st\<lparr>cancelFlagRef := True, isCancelling := True\<rparr>"

function runs_loop ::
  "'w batch_env \<Rightarrow> nat \<Rightarrow> control_bar \<Rightarrow> batch_event list \<Rightarrow> 'w
     \<Rightarrow> loop_exit \<times> control_bar \<times> batch_event list \<times> 'w" where
  "runs_loop env i st tr w =
     (if i < runCount st then
        if cancelFlagRef st then (Break, st, tr, w)
        else
          (case handleRunWorkflow env w of
             (RunRaised, w') \<Rightarrow> (Thrown, st, tr @ [RunStarted (i + 1)], w')
           | (RunCompleted, w') \<Rightarrow>
               let st1 = (if cancelClicked env w' then cancelButton st else st)
               in runs_loop env (i + 1) (st1\<lparr>completedRuns := i + 1\<rparr>)
                    (tr @ [RunStarted (i + 1)]) w')
      else (AllRuns, st, tr, w))"
  by pat_completeness auto
termination
  by (relation "measure (\<lambda>(env, i, st, tr, w). runCount st - i)")
     (auto simp: cancelButton_def)

declare runs_loop.simps [simp del]

text \<open>The statistics call: a failure of \<open>fetch\<close> is logged and goes no further.\<close>

definition updateStats :: "'w batch_env \<Rightarrow> string \<Rightarrow> nat \<Rightarrow> batch_event list \<Rightarrow> 'w \<Rightarrow> batch_event list \<times> 'w" where
  "updateStats env wid n tr w =
     (let url = ''/api/workflows/'' @ wid @ ''/stats?runs='' @ show_nat n
      in case fetch env url w of
           (FetchResolves, w') \<Rightarrow> (tr @ [StatsCall url], w')
         | (FetchRejects, w') \<Rightarrow>
             (tr @ [StatsCall url, LogError ''Failed to update workflow stats''], w')
         | (FetchThrows, w') \<Rightarrow>
             (tr @ [StatsCall url, LogError ''Error updating workflow stats:''], w'))"

text \<open>
  The notification of the success branch prints \<open>completedRuns\<close> as the handler
  captured it, that is, the value of the state the handler was called in.
\<close>

definition handleMultipleRuns ::
  "'w batch_env \<Rightarrow> control_bar \<Rightarrow> 'w \<Rightarrow> control_bar \<times> outcome option \<times> batch_event list \<times> 'w" where
  "handleMultipleRuns env st w =
     (if isExecuting st \<or> isMultiRunning st \<or> runCount st \<le> 0 then (st, None, [], w)
      else
        let st0 = st\<lparr>completedRuns := 0, isMultiRunning := True, isCancelling := False,
                     cancelFlagRef := False, showRunProgress := (runCount st > 1)\<rparr>
        in case runs_loop env 0 st0 [] w of (ex, st1, tr1, w1) \<Rightarrow>
           let wasCancelled = (ex = Break);
               workflowError = (ex = Thrown)
           in case (if ex \<noteq> Thrown \<and> \<not> wasCancelled \<and> truthy_str (activeWorkflowId st)
                    then updateStats env (or_default (activeWorkflowId st) []) (runCount st) tr1 w1
                    else if ex = Thrown
                    then (tr1 @ [LogError ''Error during multiple workflow runs:''], w1)
                    else (tr1, w1)) of (tr2, w2) \<Rightarrow>
              let st2 = st1\<lparr>isMultiRunning := False\<rparr>;
                  st3 = (if runCount st > 1 then st2\<lparr>hideProgressTimer := True\<rparr>
                         else st2\<lparr>showRunProgress := False\<rparr>);
                  st4 = st3\<lparr>isCancelling := False, cancelFlagRef := False\<rparr>
              in if wasCancelled then
                   (st4\<lparr>notifications := notifications st4 @
                         [\<lparr>n_type = ''info'', n_message = ''Workflow run cancelled'',
                           n_workflowId = activeWorkflowId st\<rparr>]\<rparr>,
                    Some cancelled, tr2, w2)
                 else if workflowError then
                   (st4\<lparr>notifications := notifications st4 @
                         [\<lparr>n_type = ''error'',
                           n_message = ''Failed to complete all workflow runs'',
                           n_workflowId = activeWorkflowId st\<rparr>]\<rparr>,
                    Some error, tr2, w2)
                 else if runCount st > 1 then
                   (st4\<lparr>notifications := notifications st4 @
                         [\<lparr>n_type = ''console'',
                           n_message = ''Completed '' @ show_nat (completedRuns st) @
                                       '' workflow runs'',
                           n_workflowId = activeWorkflowId st\<rparr>]\<rparr>,
                    Some completed, tr2, w2)
                 else (st4, Some completed, tr2, w2))"

fun is_stats_call :: "batch_event \<Rightarrow> bool" where
  "is_stats_call (StatsCall url) = True"
| "is_stats_call _ = False"

fun runs_started :: "batch_event list \<Rightarrow> nat list" where
  "runs_started [] = []"
| "runs_started (RunStarted n # tr) = n # runs_started tr"
| "runs_started (e # tr) = runs_started tr"

text \<open>The world after the first \<open>n\<close> runs of a batch that started in \<open>w\<close>.\<close>

fun world_after :: "'w batch_env \<Rightarrow> 'w \<Rightarrow> nat \<Rightarrow> 'w" where
  "world_after env w 0 = w"
| "world_after env w (Suc n) = snd (handleRunWorkflow env (world_after env w n))"

section \<open>Concrete runs\<close>

text \<open>
  A world that is only a clock in milliseconds: a model call takes 100 ms, a tool
  execution 5 ms, and reading the clock takes no time.
\<close>

definition demo_call :: tool_call where
  "demo_call = \<lparr>tc_id = ''call_1'', tc_name = ''search'', tc_arguments = ''{}''\<rparr>"

definition demo_call2 :: tool_call where
  "demo_call2 = \<lparr>tc_id = ''call_2'', tc_name = ''search'', tc_arguments = ''{}''\<rparr>"

definition demo_usage :: usage where
  "demo_usage = \<lparr>prompt_tokens = Some 7, completion_tokens = Some 3, total_tokens = Some 10\<rparr>"

definition demo_tool_response :: "tool_call list \<Rightarrow> response" where
  "demo_tool_response tcs =
     \<lparr>choices = [Some \<lparr>rm_content = None, rm_tool_calls = Some tcs\<rparr>],
      resp_usage = Some demo_usage\<rparr>"

definition demo_final_response :: response where
  "demo_final_response =
     \<lparr>choices = [Some \<lparr>rm_content = Some ''done'', rm_tool_calls = None\<rparr>],
      resp_usage = Some demo_usage\<rparr>"

definition demo_parse :: "string \<Rightarrow> json option" where
  "demo_parse s = (if s = ''{}'' then Some (JObj []) else None)"

definition demo_stringify :: "json \<Rightarrow> string" where
  "demo_stringify j = (case j of JStr s \<Rightarrow> s | _ \<Rightarrow> ''null'')"

text \<open>
  The first model call asks for the tool calls \<open>tcs\<close>, the later ones answer with
  text; every tool execution returns with \<open>success = ok\<close>.
\<close>

definition demo_env :: "tool_call list \<Rightarrow> bool \<Rightarrow> int env" where
  "demo_env tcs ok =
     \<lparr>create = (\<lambda>p w. (Inr (if w < 100 then demo_tool_response tcs else demo_final_response),
                         w + 100)),
      executeTool = (\<lambda>n a w. (Some \<lparr>tr_success = ok, tr_output = JStr ''found''\<rparr>, w + 5)),
      now = (\<lambda>w. (w, w)),
      parse = demo_parse,
      stringify = demo_stringify\<rparr>"

text \<open>A provider whose every answer asks for one tool call.\<close>

definition demo_always_env :: "int env" where
  "demo_always_env =
     \<lparr>create = (\<lambda>p w. (Inr (demo_tool_response [demo_call]), w + 100)),
      executeTool = (\<lambda>n a w. (Some \<lparr>tr_success = True, tr_output = JStr ''found''\<rparr>, w + 5)),
      now = (\<lambda>w. (w, w)),
      parse = demo_parse,
      stringify = demo_stringify\<rparr>"

definition demo_tool :: tool where
  "demo_tool =
     \<lparr>tool_id = ''search'', tool_description = ''Search the web'',
      tool_parameters = JObj [], tool_params = Some (JObj [(''limit'', JNum 5)])\<rparr>"

definition demo_request :: request where
  "demo_request =
     \<lparr>req_apiKey = Some ''sk-test'', req_model = Some ''gpt-4o'', req_systemPrompt = None,
      req_context = None, req_messages = None, req_tools = Some [demo_tool],
      req_temperature = None, req_maxTokens = None, req_responseFormat = None\<rparr>"

definition demo_state :: lstate where
  "demo_state =
     \<lparr>content = [], tokens = \<lparr>prompt = 0, completion = 0, total = 0\<rparr>, toolCalls = [],
      toolResults = [], currentMessages = [], modelTime = 0, toolsTime = 0,
      timeSegments = []\<rparr>"

text \<open>
  A batch world that counts the runs made: every run completes, and the cancel button
  is clicked while run \<open>k\<close> is awaited.
\<close>

definition demo_batch_env :: "nat \<Rightarrow> fetch_outcome \<Rightarrow> nat batch_env" where
  "demo_batch_env k fo =
     \<lparr>handleRunWorkflow = (\<lambda>w. (RunCompleted, w + 1)),
      cancelClicked = (\<lambda>w. w = k),
      fetch = (\<lambda>url w. (fo, w))\<rparr>"

definition demo_control_bar :: control_bar where
  "demo_control_bar =
     \<lparr>isExecuting = False, activeWorkflowId = Some ''wf1'', runCount = 5, completedRuns = 0,
      isMultiRunning = False, showRunProgress = False, hideProgressTimer = False,
      isCancelling = False, cancelFlagRef = False, notifications = []\<rparr>"

section \<open>Properties of the conversation loop\<close>

subsection \<open>Invariants of the tool batch\<close>

lemma processToolCalls_induct:
  assumes "P s" and "\<And>tc s. P s \<Longrightarrow> P (processToolCall env request tc s)"
  shows "P (processToolCalls env request tcs s)"
  unfolding processToolCalls_def using assms(1)
proof (induction tcs arbitrary: s)
  case Nil
  then show ?case by simp
next
  case (Cons tc tcs)
  then show ?case using assms(2) by simp
qed

lemma processToolCall_cases:
  obtains (skip) "processToolCall env request tc (st, tr, w) = (st, tr, w)"
  | (failed) tool toolArgs w' where
      "findTool request (tc_name tc) = Some tool"
      "parse env (tc_arguments tc) = Some toolArgs"
      "processToolCall env request tc (st, tr, w) =
         (st, tr @ [ToolExec (tc_name tc) (spread (ownProps_opt (tool_params tool)) (ownProps toolArgs))], w')"
      "w' = snd (executeTool env (tc_name tc) (spread (ownProps_opt (tool_params tool)) (ownProps toolArgs)) (snd (now env w)))
       \<or> w' = snd (now env (snd (executeTool env (tc_name tc) (spread (ownProps_opt (tool_params tool)) (ownProps toolArgs)) (snd (now env w)))))"
  | (ok) tool toolArgs result w2 where
      "findTool request (tc_name tc) = Some tool"
      "parse env (tc_arguments tc) = Some toolArgs"
      "executeTool env (tc_name tc) (spread (ownProps_opt (tool_params tool)) (ownProps toolArgs)) (snd (now env w)) = (Some result, w2)"
      "tr_success result"
      "processToolCall env request tc (st, tr, w) =
         (st\<lparr>timeSegments := timeSegments st @
               [\<lparr>seg_type = ToolSeg, seg_name = tc_name tc,
                 seg_startTime = fst (now env w), seg_endTime = fst (now env w2),
                 seg_duration = fst (now env w2) - fst (now env w)\<rparr>],
             toolResults := toolResults st @ [tr_output result],
             toolCalls := toolCalls st @
               [\<lparr>log_name = tc_name tc, log_arguments = toolArgs,
                 log_startTime = fst (now env w), log_endTime = fst (now env w2),
                 log_duration = fst (now env w2) - fst (now env w),
                 log_result = tr_output result\<rparr>],
             currentMessages := currentMessages st @ call_messages env (tc, tr_output result)\<rparr>,
          tr @ [ToolExec (tc_name tc) (spread (ownProps_opt (tool_params tool)) (ownProps toolArgs))],
          snd (now env w2))"
proof -
  show ?thesis
  proof (cases "parse env (tc_arguments tc)")
    case None
    then have "processToolCall env request tc (st, tr, w) = (st, tr, w)"
      by (simp add: processToolCall_def)
    then show ?thesis by (rule skip)
  next
    case (Some toolArgs)
    note p = this
    show ?thesis
    proof (cases "findTool request (tc_name tc)")
      case None
      with p have "processToolCall env request tc (st, tr, w) = (st, tr, w)"
        by (simp add: processToolCall_def)
      then show ?thesis by (rule skip)
    next
      case (Some tool)
      note f = this
      define args where "args = spread (ownProps_opt (tool_params tool)) (ownProps toolArgs)"
      obtain t0 w1 where n0: "now env w = (t0, w1)" by (metis surj_pair)
      obtain res w2 where ex: "executeTool env (tc_name tc) args w1 = (res, w2)" by (metis surj_pair)
      obtain t1 w3 where n1: "now env w2 = (t1, w3)" by (metis surj_pair)
      show ?thesis
      proof (cases res)
        case None
        have "processToolCall env request tc (st, tr, w) = (st, tr @ [ToolExec (tc_name tc) args], w2)"
          using p f n0 ex None by (simp add: processToolCall_def Let_def args_def)
        then show ?thesis using failed[OF f p, of w2] n0 ex by (simp add: args_def)
      next
        case (Some result)
        show ?thesis
        proof (cases "tr_success result")
          case False
          have "processToolCall env request tc (st, tr, w) = (st, tr @ [ToolExec (tc_name tc) args], w3)"
            using p f n0 ex Some n1 False by (simp add: processToolCall_def Let_def args_def)
          then show ?thesis using failed[OF f p, of w3] n0 ex n1 by (simp add: args_def)
        next
          case True
          show ?thesis
            apply (rule ok[OF f p _ True, of w2])
            using p f n0 ex Some n1 True
            by (simp_all add: processToolCall_def Let_def args_def call_messages_def)
        qed
      qed
    qed
  qed
qed

lemma processToolCall_model_calls:
  "processToolCall env request tc (st, tr, w) = (st', tr', w') \<Longrightarrow> model_calls tr' = model_calls tr"
  by (auto simp: processToolCall_def model_calls_def Let_def split: option.splits prod.splits if_splits)

lemma processToolCalls_model_calls:
  "processToolCalls env request tcs (st, tr, w) = (st', tr', w') \<Longrightarrow> model_calls tr' = model_calls tr"
  unfolding processToolCalls_def
proof (induction tcs arbitrary: st tr w)
  case Nil then show ?case by simp
next
  case (Cons tc tcs)
  obtain st1 tr1 w1 where s: "processToolCall env request tc (st, tr, w) = (st1, tr1, w1)"
    by (metis prod_cases3)
  with Cons show ?case using processToolCall_model_calls[OF s] by simp
qed

lemma iteration_model_calls:
  "iteration env request payload n tcs st tr w = (res, tr', w') \<Longrightarrow> model_calls tr' = model_calls tr + 1"
  unfolding iteration_def
  by (auto simp: Let_def model_calls_def[of "_ @ _"] split: prod.splits sum.splits dest!: processToolCalls_model_calls)
     (simp_all add: model_calls_def)

lemma loop_model_calls:
  "loop env request payload n r st tr w = (Inr (n', st'), tr', w') \<Longrightarrow>
     n \<le> n' \<and> (n \<le> MAX_ITERATIONS \<longrightarrow> n' \<le> MAX_ITERATIONS) \<and> model_calls tr' = model_calls tr + (n' - n)"
proof (induction env request payload n r st tr w rule: loop.induct)
  case (1 env request payload n r st tr w)
  show ?case
  proof (cases "n < MAX_ITERATIONS \<and> requests_tool r")
    case False
    with "1.prems" show ?thesis
      by (auto simp: loop.simps[of _ _ _ n] requests_tool_def split: option.splits if_splits)
  next
    case True
    then obtain tcs where tcs: "response_tool_calls r = Some tcs" "tcs \<noteq> []"
      by (auto simp: requests_tool_def split: option.splits)
    obtain res tr1 w1 where it: "iteration env request payload n tcs st tr w = (res, tr1, w1)"
      by (metis prod_cases3)
    from "1.prems" True tcs it obtain r1 st1 where res: "res = Inr (r1, st1)"
      and rec: "loop env request payload (n + 1) r1 st1 tr1 w1 = (Inr (n', st'), tr', w')"
      by (auto simp: loop.simps[of _ _ _ n] split: sum.splits)
    have ih: "n + 1 \<le> n' \<and> (n + 1 \<le> MAX_ITERATIONS \<longrightarrow> n' \<le> MAX_ITERATIONS) \<and> model_calls tr' = model_calls tr1 + (n' - (n + 1))"
      using "1.IH"[OF _ tcs(1) tcs(2) _ _ _ _ rec] True it res by simp
    with iteration_model_calls[OF it] True show ?thesis by auto
  qed
qed


lemma iteration_always:
  assumes "always_requests env"
  shows "\<exists>r' st' tr' w'. iteration env request payload n tcs st tr w = (Inr (r', st'), tr', w') \<and> requests_tool r'"
proof -
  obtain t0 w1 where a: "now env w = (t0, w1)" by (metis surj_pair)
  obtain st1 tr1 w2 where b: "processToolCalls env request tcs (st, tr, w1) = (st1, tr1, w2)"
    by (metis prod_cases3)
  obtain t1 w3 where c: "now env w2 = (t1, w3)" by (metis surj_pair)
  obtain t2 w4 where d: "now env w3 = (t2, w4)" by (metis surj_pair)
  define np where "np = payload\<lparr>p_messages := currentMessages st1\<rparr>"
  obtain x w5 where e: "create env np w4 = (x, w5)" by (metis surj_pair)
  from assms obtain r' where r': "fst (create env np w4) = Inr r'" "requests_tool r'"
    unfolding always_requests_def by blast
  with e have x: "x = Inr r'" by simp
  obtain t3 w6 where f: "now env w5 = (t3, w6)" by (metis surj_pair)
  show ?thesis
    unfolding iteration_def using a b c d e x f r'(2)
    by (simp add: Let_def np_def)
qed

lemma loop_always:
  "always_requests env \<Longrightarrow> requests_tool r \<Longrightarrow> n \<le> MAX_ITERATIONS \<Longrightarrow>
     \<exists>st' tr' w'. loop env request payload n r st tr w = (Inr (MAX_ITERATIONS, st'), tr', w')"
proof (induction env request payload n r st tr w rule: loop.induct)
  case (1 env request payload n r st tr w)
  show ?case
  proof (cases "n < MAX_ITERATIONS")
    case False
    note assms = "1.prems"(1)
    from False "1.prems" have "n = MAX_ITERATIONS" by simp
    then show ?thesis by (simp add: loop.simps[of _ _ _ MAX_ITERATIONS])
  next
    case True
    note assms = "1.prems"(1)
    from "1.prems"(2) obtain tcs where tcs: "response_tool_calls r = Some tcs" "tcs \<noteq> []"
      by (auto simp: requests_tool_def split: option.splits)
    from iteration_always[OF assms] obtain r1 st1 tr1 w1 where
      it: "iteration env request payload n tcs st tr w = (Inr (r1, st1), tr1, w1)"
      and rt: "requests_tool r1" by blast
    have "\<exists>st' tr' w'. loop env request payload (n + 1) r1 st1 tr1 w1 = (Inr (MAX_ITERATIONS, st'), tr', w')"
      using "1.IH"[OF True tcs(1) tcs(2) _ _ _ _ assms rt] it True
      by simp
    then show ?thesis using True tcs it by (simp add: loop.simps[of _ _ _ n])
  qed
qed

subsection \<open>What a tool batch leaves alone\<close>

lemma processToolCall_keeps:
  "processToolCall env request tc (st, tr, w) = (st', tr', w') \<Longrightarrow>
     tokens st' = tokens st \<and> modelTime st' = modelTime st \<and> toolsTime st' = toolsTime st \<and>
     content st' = content st \<and> usage_total tr' = usage_total tr \<and>
     batch_time tr' = batch_time tr \<and>
     sum_durations Model (timeSegments st') = sum_durations Model (timeSegments st)"
  by (cases rule: processToolCall_cases[of env request tc st tr w])
     (auto simp: usage_total_def sum_durations_def batch_time_def)

lemma processToolCalls_keeps:
  "processToolCalls (env :: 'w env) request tcs (st, tr, w) = (st', tr', w') \<Longrightarrow>
     tokens st' = tokens st \<and> modelTime st' = modelTime st \<and> toolsTime st' = toolsTime st \<and>
     content st' = content st \<and> usage_total tr' = usage_total tr \<and>
     batch_time tr' = batch_time tr \<and>
     sum_durations Model (timeSegments st') = sum_durations Model (timeSegments st)"
proof -
  let ?P = "\<lambda>s. case s of (st', tr', w') \<Rightarrow>
     tokens st' = tokens st \<and> modelTime st' = modelTime st \<and> toolsTime st' = toolsTime st \<and>
     content st' = content st \<and> usage_total tr' = usage_total tr \<and>
     batch_time tr' = batch_time tr \<and>
     sum_durations Model (timeSegments st') = sum_durations Model (timeSegments st)"
  have "?P (processToolCalls env request tcs (st, tr, w))"
  proof (rule processToolCalls_induct)
    show "?P (st, tr, w)" by simp
  next
    fix tc and s :: "lstate \<times> event list \<times> 'w" assume "?P s"
    then show "?P (processToolCall env request tc s)"
      by (cases s, cases "processToolCall env request tc s")
         (auto dest!: processToolCall_keeps)
  qed
  then show "processToolCalls env request tcs (st, tr, w) = (st', tr', w') \<Longrightarrow> ?thesis" by simp
qed

subsection \<open>A tool batch and the outcomes of its calls\<close>

lemma processToolCall_outcome:
  "processToolCall env request tc (st, tr, w) = (st', tr', w') \<Longrightarrow>
     w' = snd (call_outcome env request tc w) \<and>
     currentMessages st' = currentMessages st @
       (case fst (call_outcome env request tc w) of
          None \<Rightarrow> [] | Some out \<Rightarrow> call_messages env (tc, out)) \<and>
     toolResults st' = toolResults st @
       (case fst (call_outcome env request tc w) of None \<Rightarrow> [] | Some out \<Rightarrow> [out])"
  by (auto simp: processToolCall_def call_outcome_def call_messages_def Let_def
      split: option.splits prod.splits if_splits)

lemma processToolCalls_outcome:
  "processToolCalls env request tcs (st, tr, w) = (st', tr', w') \<Longrightarrow>
     w' = world_after_calls env request tcs w \<and>
     currentMessages st' = currentMessages st @
       concat (map (call_messages env) (successful_calls env request tcs w)) \<and>
     toolResults st' = toolResults st @ map snd (successful_calls env request tcs w)"
proof (induction tcs arbitrary: st tr w)
  case Nil
  then show ?case by (simp add: processToolCalls_def)
next
  case (Cons tc tcs)
  obtain st1 tr1 w1 where s: "processToolCall env request tc (st, tr, w) = (st1, tr1, w1)"
    by (metis prod_cases3)
  with Cons.prems have r: "processToolCalls env request tcs (st1, tr1, w1) = (st', tr', w')"
    by (simp add: processToolCalls_def)
  obtain out w2 where o: "call_outcome env request tc w = (out, w2)" by (metis surj_pair)
  from processToolCall_outcome[OF s] o have
    a: "w1 = w2"
      "currentMessages st1 = currentMessages st @
         (case out of None \<Rightarrow> [] | Some v \<Rightarrow> call_messages env (tc, v))"
      "toolResults st1 = toolResults st @ (case out of None \<Rightarrow> [] | Some v \<Rightarrow> [v])"
    by simp_all
  from Cons.IH[OF r] a o show ?case by (cases out) simp_all
qed

lemma subseq_successful_calls: "subseq (map fst (successful_calls env request tcs w)) tcs"
proof (induction tcs arbitrary: w)
  case Nil
  then show ?case by simp
next
  case (Cons tc tcs)
  obtain out w2 where o: "call_outcome env request tc w = (out, w2)" by (metis surj_pair)
  show ?case using Cons[of w2] o by (cases out) (simp_all add: list_emb_Cons)
qed

subsection \<open>Tool time under a monotone clock\<close>

lemma processToolCall_tool_time:
  assumes "clock_monotone env"
    and "processToolCall env request tc (st, tr, w) = (st', tr', w')"
  shows "fst (now env w) \<le> fst (now env w') \<and>
         sum_durations ToolSeg (timeSegments st') - sum_durations ToolSeg (timeSegments st)
           \<le> fst (now env w') - fst (now env w)"
proof -
  have m1: "\<And>w. fst (now env w) \<le> fst (now env (snd (now env w)))"
    and m3: "\<And>n a w. fst (now env w) \<le> fst (now env (snd (executeTool env n a w)))"
    using assms(1) unfolding clock_monotone_def by blast+
  show ?thesis
  proof (cases rule: processToolCall_cases[of env request tc st tr w])
    case skip
    with assms(2) show ?thesis by simp
  next
    case (failed tool toolArgs w'')
    let ?a = "spread (ownProps_opt (tool_params tool)) (ownProps toolArgs)"
    have "fst (now env w) \<le> fst (now env (snd (executeTool env (tc_name tc) ?a (snd (now env w)))))"
      using m1[of w] m3[of "snd (now env w)" "tc_name tc" ?a] by linarith
    moreover have "fst (now env w) \<le> fst (now env (snd (now env (snd (executeTool env (tc_name tc) ?a (snd (now env w)))))))"
      using calculation m1[of "snd (executeTool env (tc_name tc) ?a (snd (now env w)))"] by linarith
    ultimately show ?thesis using failed assms(2) by auto
  next
    case (ok tool toolArgs result w2)
    let ?a = "spread (ownProps_opt (tool_params tool)) (ownProps toolArgs)"
    have a: "fst (now env w) \<le> fst (now env w2)"
      using m1[of w] m3[of "snd (now env w)" "tc_name tc" ?a] ok(3) by simp
    have b: "fst (now env w2) \<le> fst (now env (snd (now env w2)))" by (rule m1)
    from ok(5) assms(2) have
      "st' = st\<lparr>timeSegments := timeSegments st @
               [\<lparr>seg_type = ToolSeg, seg_name = tc_name tc,
                 seg_startTime = fst (now env w), seg_endTime = fst (now env w2),
                 seg_duration = fst (now env w2) - fst (now env w)\<rparr>],
             toolResults := toolResults st @ [tr_output result],
             toolCalls := toolCalls st @
               [\<lparr>log_name = tc_name tc, log_arguments = toolArgs,
                 log_startTime = fst (now env w), log_endTime = fst (now env w2),
                 log_duration = fst (now env w2) - fst (now env w),
                 log_result = tr_output result\<rparr>],
             currentMessages := currentMessages st @ call_messages env (tc, tr_output result)\<rparr>"
      and "w' = snd (now env w2)" by simp_all
    then show ?thesis using a b by (simp add: sum_durations_def)
  qed
qed

lemma processToolCalls_tool_time:
  assumes "clock_monotone (env :: 'w env)"
  shows "processToolCalls env request tcs (st, tr, w) = (st', tr', w') \<Longrightarrow>
         fst (now env w) \<le> fst (now env w') \<and>
         sum_durations ToolSeg (timeSegments st') - sum_durations ToolSeg (timeSegments st)
           \<le> fst (now env w') - fst (now env w)"
proof -
  let ?P = "\<lambda>s. case s of (st', tr', w') \<Rightarrow>
         fst (now env w) \<le> fst (now env w') \<and>
         sum_durations ToolSeg (timeSegments st') - sum_durations ToolSeg (timeSegments st)
           \<le> fst (now env w') - fst (now env w)"
  have "?P (processToolCalls env request tcs (st, tr, w))"
  proof (rule processToolCalls_induct)
    show "?P (st, tr, w)" by simp
  next
    fix tc and s :: "lstate \<times> event list \<times> 'w" assume P: "?P s"
    obtain a b c where s: "s = (a, b, c)" by (metis prod_cases3)
    obtain a' b' c' where s': "processToolCall env request tc (a, b, c) = (a', b', c')"
      by (metis prod_cases3)
    from processToolCall_tool_time[OF assms s'] P s s'
    show "?P (processToolCall env request tc s)" by auto
  qed
  then show "processToolCalls env request tcs (st, tr, w) = (st', tr', w') \<Longrightarrow> ?thesis" by simp
qed

subsection \<open>One iteration\<close>

lemma iteration_InrE:
  assumes "iteration env request payload n tcs st tr w = (Inr (r', st'), tr', w')"
  obtains st1 tr1 w2 seg where
    "processToolCalls env request tcs (st, tr, snd (now env w)) = (st1, tr1, w2)"
    "tr' = tr1 @ [ToolBatch (fst (now env w)) (fst (now env w2)),
                   ModelCall (payload\<lparr>p_messages := currentMessages st1\<rparr>) (Inr r')]"
    "tokens st' = add_tokens (tokens st1) (usage_of r')"
    "seg_type seg = Model"
    "modelTime st' = modelTime st1 + seg_duration seg"
    "timeSegments st' = timeSegments st1 @ [seg]"
    "toolsTime st' = toolsTime st1 + (fst (now env w2) - fst (now env w))"
    "currentMessages st' = currentMessages st1"
    "toolResults st' = toolResults st1"
    "toolCalls st' = toolCalls st1"
proof -
  obtain t0 w1 where a: "now env w = (t0, w1)" by (metis surj_pair)
  obtain st1 tr1 w2 where b: "processToolCalls env request tcs (st, tr, w1) = (st1, tr1, w2)"
    by (metis prod_cases3)
  obtain t1 w3 where c: "now env w2 = (t1, w3)" by (metis surj_pair)
  obtain t2 w4 where d: "now env w3 = (t2, w4)" by (metis surj_pair)
  define np where "np = payload\<lparr>p_messages := currentMessages st1\<rparr>"
  obtain x w5 where e: "create env np w4 = (x, w5)" by (metis surj_pair)
  obtain t3 w6 where f: "now env w5 = (t3, w6)" by (metis surj_pair)
  from assms a b c d e f have x: "x = Inr r'"
    unfolding iteration_def by (auto simp: Let_def np_def split: sum.splits)
  define seg where "seg = \<lparr>seg_type = Model,
      seg_name = ''Model response (iteration '' @ show_nat (n + 1) @ '')'',
      seg_startTime = t2, seg_endTime = t3, seg_duration = t3 - t2\<rparr>"
  have st': "st' = (case resp_usage r' of
       None \<Rightarrow> (\<lambda>s. s)
     | Some u \<Rightarrow> (\<lambda>s. s\<lparr>tokens := \<lparr>prompt = prompt (tokens s) + or_zero (prompt_tokens u),
                   completion = completion (tokens s) + or_zero (completion_tokens u),
                   total = total (tokens s) + or_zero (total_tokens u)\<rparr>\<rparr>))
     ((if truthy_str (response_content r') then (\<lambda>s. s\<lparr>content := or_default (response_content r') []\<rparr>) else (\<lambda>s. s))
      (st1\<lparr>toolsTime := toolsTime st1 + (t1 - t0),
           timeSegments := timeSegments st1 @ [seg],
           modelTime := modelTime st1 + (t3 - t2)\<rparr>))"
    and tr': "tr' = tr1 @ [ToolBatch t0 t1, ModelCall np (Inr r')]"
    using assms a b c d e f x unfolding iteration_def
    by (auto simp: Let_def np_def seg_def split: option.splits)
  show ?thesis
  proof (rule that[of st1 tr1 w2 seg])
    show "processToolCalls env request tcs (st, tr, snd (now env w)) = (st1, tr1, w2)"
      using a b by simp
    show "tr' = tr1 @ [ToolBatch (fst (now env w)) (fst (now env w2)),
                       ModelCall (payload\<lparr>p_messages := currentMessages st1\<rparr>) (Inr r')]"
      using tr' a c by (simp add: np_def)
    show "tokens st' = add_tokens (tokens st1) (usage_of r')"
      using st' by (auto simp: add_tokens_def usage_of_def split: option.splits)
    show "seg_type seg = Model" by (simp add: seg_def)
    show "modelTime st' = modelTime st1 + seg_duration seg"
      using st' by (auto simp: seg_def split: option.splits)
    show "timeSegments st' = timeSegments st1 @ [seg]"
      using st' by (auto split: option.splits)
    show "toolsTime st' = toolsTime st1 + (fst (now env w2) - fst (now env w))"
      using st' a c by (auto split: option.splits)
    show "currentMessages st' = currentMessages st1"
      using st' by (auto split: option.splits)
    show "toolResults st' = toolResults st1"
      using st' by (auto split: option.splits)
    show "toolCalls st' = toolCalls st1"
      using st' by (auto split: option.splits)
  qed
qed


lemma batch_time_snoc:
  "batch_time (tr @ [ToolBatch t0 t1, ModelCall p r]) = batch_time tr + (t1 - t0)"
  by (simp add: batch_time_def)

lemma sum_durations_snoc:
  "sum_durations k (segs @ [seg]) =
     sum_durations k segs + (if seg_type seg = k then seg_duration seg else 0)"
  by (simp add: sum_durations_def)


lemma iteration_model_time_inv:
  assumes "iteration env request payload n tcs st tr w = (Inr (r', st'), tr', w')"
    and "model_time_inv st"
  shows "model_time_inv st'"
  using assms(1)
proof (cases rule: iteration_InrE)
  case (1 st1 tr1 w2 seg)
  from processToolCalls_keeps[OF 1(1)] assms(2) 1(4,5,6) show ?thesis
    by (simp add: model_time_inv_def sum_durations_snoc)
qed

lemma iteration_tool_time_inv:
  assumes "iteration env request payload n tcs st tr w = (Inr (r', st'), tr', w')"
    and "clock_monotone env" and "tool_time_inv st"
  shows "tool_time_inv st'"
  using assms(1)
proof (cases rule: iteration_InrE)
  case (1 st1 tr1 w2 seg)
  have m: "fst (now env w) \<le> fst (now env (snd (now env w)))"
    using assms(2) unfolding clock_monotone_def by blast
  from processToolCalls_tool_time[OF assms(2) 1(1)] processToolCalls_keeps[OF 1(1)]
    assms(3) 1(4,6,7) m
  show ?thesis
    by (simp add: tool_time_inv_def sum_durations_snoc)
qed

lemma iteration_span:
  assumes "iteration env request payload n tcs st tr w = (Inr (r', st'), tr', w')"
  shows "toolsTime st' = toolsTime st +
           (fst (now env (world_after_calls env request tcs (snd (now env w)))) - fst (now env w)) \<and>
         batch_time tr' = batch_time tr +
           (fst (now env (world_after_calls env request tcs (snd (now env w)))) - fst (now env w))"
  using assms
proof (cases rule: iteration_InrE)
  case (1 st1 tr1 w2 seg)
  from processToolCalls_outcome[OF 1(1)] processToolCalls_keeps[OF 1(1)] 1(2,7)
  show ?thesis by (simp add: batch_time_snoc)
qed

lemma iteration_batch_time_inv:
  assumes "iteration env request payload n tcs st tr w = (Inr (r', st'), tr', w')"
    and "batch_time_inv st tr"
  shows "batch_time_inv st' tr'"
  using iteration_span[OF assms(1)] assms(2) by (simp add: batch_time_inv_def)

lemma loop_invariant_aux:
  "loop env request payload n r st tr w = (Inr (n', st'), tr', w') \<Longrightarrow>
   (\<forall>n tcs st tr w r' st' tr' w'.
      iteration env request payload n tcs st tr w = (Inr (r', st'), tr', w') \<longrightarrow> I st tr \<longrightarrow> I st' tr') \<Longrightarrow>
   I st tr \<Longrightarrow> I st' tr'"
proof (induction env request payload n r st tr w rule: loop.induct)
  case (1 env request payload n r st tr w)
  show ?case
  proof (cases "n < MAX_ITERATIONS \<and> requests_tool r")
    case False
    with "1.prems" show ?thesis
      by (auto simp: loop.simps[of _ _ _ n] requests_tool_def split: option.splits if_splits)
  next
    case True
    then obtain tcs where tcs: "response_tool_calls r = Some tcs" "tcs \<noteq> []"
      by (auto simp: requests_tool_def split: option.splits)
    obtain res tr1 w1 where it: "iteration env request payload n tcs st tr w = (res, tr1, w1)"
      by (metis prod_cases3)
    from "1.prems"(1) True tcs it obtain r1 st1 where res: "res = Inr (r1, st1)"
      and rec: "loop env request payload (n + 1) r1 st1 tr1 w1 = (Inr (n', st'), tr', w')"
      by (auto simp: loop.simps[of _ _ _ n] split: sum.splits)
    have "I st1 tr1" using "1.prems"(2,3) it res by blast
    then show ?thesis
      using "1.IH"[OF _ tcs(1) tcs(2) _ _ _ _ rec "1.prems"(2)] True it res by simp
  qed
qed

lemma loop_invariant:
  assumes "loop env request payload n r st tr w = (Inr (n', st'), tr', w')"
    and "\<And>n tcs st tr w r' st' tr' w'.
      iteration env request payload n tcs st tr w = (Inr (r', st'), tr', w') \<Longrightarrow> I st tr \<Longrightarrow> I st' tr'"
    and "I st tr"
  shows "I st' tr'"
  by (rule loop_invariant_aux[where I = I, OF assms(1)]) (use assms(2,3) in blast)+

subsection \<open>A run that returns\<close>

lemma executeRequest_InrE:
  assumes "executeRequest env request w = (Inr res, tr, w')"
  obtains r0 st0 w3 n' st' w4 where
    "truthy_str (req_apiKey request)"
    "loop env request (buildPayload request) 0 r0 st0
        [ModelCall (buildPayload request) (Inr r0)] w3 = (Inr (n', st'), tr, w4)"
    "tokens st0 = usage_of r0"
    "modelTime st0 = sum_durations Model (timeSegments st0)"
    "toolsTime st0 = 0"
    "sum_durations ToolSeg (timeSegments st0) = 0"
    "pr_tokens res = tokens st'"
    "t_modelTime (pr_timing res) = modelTime st'"
    "t_toolsTime (pr_timing res) = toolsTime st'"
    "t_timeSegments (pr_timing res) = timeSegments st'"
    "t_iterations (pr_timing res) = n' + 1"
proof -
  from assms have k: "truthy_str (req_apiKey request)"
    unfolding executeRequest_def by (auto split: if_splits)
  define payload where "payload = buildPayload request"
  obtain t0 w0 where a: "now env w = (t0, w0)" by (metis surj_pair)
  obtain t1 w1 where b: "now env w0 = (t1, w1)" by (metis surj_pair)
  obtain x w2 where c: "create env payload w1 = (x, w2)" by (metis surj_pair)
  obtain t2 w3 where d: "now env w2 = (t2, w3)" by (metis surj_pair)
  from assms k a b c obtain r0 where x: "x = Inr r0"
    unfolding executeRequest_def enhancedError_def
    by (cases x) (auto simp: Let_def payload_def split: prod.splits)
  define st0 where "st0 =
     \<lparr>content = or_default (response_content r0) [],
      tokens = (case resp_usage r0 of
                  None \<Rightarrow> \<lparr>prompt = 0, completion = 0, total = 0\<rparr>
                | Some u \<Rightarrow> \<lparr>prompt = or_zero (prompt_tokens u),
                             completion = or_zero (completion_tokens u),
                             total = or_zero (total_tokens u)\<rparr>),
      toolCalls = [], toolResults = [], currentMessages = buildMessages request,
      modelTime = t2 - t1, toolsTime = 0,
      timeSegments = [\<lparr>seg_type = Model, seg_name = ''Initial response'',
                       seg_startTime = t1, seg_endTime = t1 + (t2 - t1),
                       seg_duration = t2 - t1\<rparr>]\<rparr>"
  obtain y tr1 w4 where e: "loop env request payload 0 r0 st0 [ModelCall payload (Inr r0)] w3 = (y, tr1, w4)"
    by (metis prod_cases3)
  obtain t3 w5 where f: "now env w4 = (t3, w5)" by (metis surj_pair)
  from assms k a b c x d e obtain n' st' where y: "y = Inr (n', st')"
    unfolding executeRequest_def enhancedError_def
    by (cases y) (auto simp: Let_def payload_def st0_def split: prod.splits)
  from assms k a b c x d e y f have
    res: "res = \<lparr>pr_content = content st', pr_model = req_model request, pr_tokens = tokens st',
              pr_toolCalls = (if toolCalls st' \<noteq> [] then Some (toolCalls st') else None),
              pr_toolResults = (if toolResults st' \<noteq> [] then Some (toolResults st') else None),
              pr_timing = \<lparr>t_startTime = t0, t_endTime = t3, t_duration = t3 - t0,
                 t_modelTime = modelTime st', t_toolsTime = toolsTime st',
                 t_firstResponseTime = t2 - t1, t_iterations = n' + 1,
                 t_timeSegments = timeSegments st'\<rparr>\<rparr>"
    and tr: "tr = tr1"
    unfolding executeRequest_def
    by (simp_all add: Let_def payload_def st0_def)
  show ?thesis
  proof (rule that[of r0 st0 w3 n' st' w4])
    show "truthy_str (req_apiKey request)" by (rule k)
    show "loop env request (buildPayload request) 0 r0 st0
        [ModelCall (buildPayload request) (Inr r0)] w3 = (Inr (n', st'), tr, w4)"
      using e y tr by (simp add: payload_def)
    show "tokens st0 = usage_of r0" by (simp add: st0_def usage_of_def)
    show "modelTime st0 = sum_durations Model (timeSegments st0)"
      by (simp add: st0_def sum_durations_def)
    show "toolsTime st0 = 0" by (simp add: st0_def)
    show "sum_durations ToolSeg (timeSegments st0) = 0" by (simp add: st0_def sum_durations_def)
  qed (simp_all add: res)
qed

lemma executeRequest_always:
  assumes "always_requests env" and "truthy_str (req_apiKey request)"
  shows "\<exists>res tr w'. executeRequest env request w = (Inr res, tr, w') \<and> model_calls tr = 11
           \<and> t_iterations (pr_timing res) = 11"
proof -
  define payload where "payload = buildPayload request"
  obtain t0 w0 where a: "now env w = (t0, w0)" by (metis surj_pair)
  obtain t1 w1 where b: "now env w0 = (t1, w1)" by (metis surj_pair)
  obtain x w2 where c: "create env payload w1 = (x, w2)" by (metis surj_pair)
  obtain t2 w3 where d: "now env w2 = (t2, w3)" by (metis surj_pair)
  from assms(1) obtain r0 where r0: "fst (create env payload w1) = Inr r0" "requests_tool r0"
    unfolding always_requests_def by blast
  with c have x: "x = Inr r0" by simp
  define st0 where "st0 =
     \<lparr>content = or_default (response_content r0) [],
      tokens = (case resp_usage r0 of
                  None \<Rightarrow> \<lparr>prompt = 0, completion = 0, total = 0\<rparr>
                | Some u \<Rightarrow> \<lparr>prompt = or_zero (prompt_tokens u),
                             completion = or_zero (completion_tokens u),
                             total = or_zero (total_tokens u)\<rparr>),
      toolCalls = [], toolResults = [], currentMessages = buildMessages request,
      modelTime = t2 - t1, toolsTime = 0,
      timeSegments = [\<lparr>seg_type = Model, seg_name = ''Initial response'',
                       seg_startTime = t1, seg_endTime = t1 + (t2 - t1),
                       seg_duration = t2 - t1\<rparr>]\<rparr>"
  from loop_always[OF assms(1) r0(2), of 0 request payload st0 "[ModelCall payload (Inr r0)]" w3]
  obtain st' tr' w4 where
    e: "loop env request payload 0 r0 st0 [ModelCall payload (Inr r0)] w3 = (Inr (MAX_ITERATIONS, st'), tr', w4)"
    by auto
  from loop_model_calls[OF e] have mc: "model_calls tr' = 11"
    by (simp add: model_calls_def MAX_ITERATIONS_def)
  obtain t3 w5 where f: "now env w4 = (t3, w5)" by (metis surj_pair)
  show ?thesis
    unfolding executeRequest_def using assms(2) a b c x d e[unfolded st0_def] f mc
    by (simp add: Let_def payload_def[symmetric] MAX_ITERATIONS_def)
qed

subsection \<open>Evaluating the concrete runs\<close>

lemmas run_defs =
  executeRequest_def loop.simps iteration_def processToolCalls_def processToolCall_def findTool_def
  enhancedError_def buildPayload_def buildMessages_def transformTools_def
  response_tool_calls_def response_content_def first_message_def or_default_def or_zero_def
  MAX_ITERATIONS_def spread_def assign_all_def Let_def

lemmas demo_defs =
  demo_env_def demo_always_env_def demo_request_def demo_tool_def demo_call_def demo_call2_def
  demo_tool_response_def demo_final_response_def demo_usage_def demo_parse_def
  demo_stringify_def demo_state_def

lemma demo_failed_tool_run:
  "executeRequest (demo_env [demo_call] False) demo_request 0 =
     (Inr \<lparr>pr_content = ''done'', pr_model = Some ''gpt-4o'',
           pr_tokens = \<lparr>prompt = 14, completion = 6, total = 20\<rparr>,
           pr_toolCalls = None, pr_toolResults = None,
           pr_timing =
             \<lparr>t_startTime = 0, t_endTime = 205, t_duration = 205, t_modelTime = 200,
              t_toolsTime = 5, t_firstResponseTime = 100, t_iterations = 2,
              t_timeSegments =
                [\<lparr>seg_type = Model, seg_name = ''Initial response'', seg_startTime = 0,
                  seg_endTime = 100, seg_duration = 100\<rparr>,
                 \<lparr>seg_type = Model, seg_name = ''Model response (iteration 1)'',
                  seg_startTime = 105, seg_endTime = 205, seg_duration = 100\<rparr>]\<rparr>\<rparr>,
      [ModelCall (buildPayload demo_request) (Inr (demo_tool_response [demo_call])),
       ToolExec ''search'' [(''limit'', JNum 5)],
       ToolBatch 100 105,
       ModelCall (buildPayload demo_request) (Inr demo_final_response)],
      205)"
  by (simp add: run_defs demo_defs show_nat.simps)

lemma demo_always_requests: "always_requests demo_always_env"
  by (simp add: always_requests_def demo_always_env_def requests_tool_def
      response_tool_calls_def first_message_def demo_tool_response_def)

lemma demo_clock_monotone: "clock_monotone (demo_env tcs ok)"
  by (simp add: clock_monotone_def demo_env_def)

lemma demo_two_calls_returns:
  "\<exists>res tr w'. executeRequest (demo_env [demo_call, demo_call2] True) demo_request 0 = (Inr res, tr, w')"
  by (simp add: run_defs demo_defs show_nat.simps)


lemma demo_iteration_returns:
  "\<exists>r1 st1 tr1 w1.
     iteration (demo_env [demo_call, demo_call2] True) demo_request (buildPayload demo_request) 0
       [demo_call, demo_call2] demo_state [] 0 = (Inr (r1, st1), tr1, w1)"
  by (simp add: run_defs demo_defs show_nat.simps)

section \<open>The claims about executeRequest\<close>

text \<open>
  C1 (as amended). With a provider that answers every call by asking for at least one
  tool invocation, executeRequest returns normally after exactly 11 model calls: the
  initial call and one per iteration up to the cap of 10.
\<close>

theorem conversation_loop_call_bound:
  "always_requests env \<Longrightarrow> truthy_str (req_apiKey request) \<Longrightarrow>
     \<exists>res tr w'. executeRequest env request w = (Inr res, tr, w') \<and>
        model_calls tr = MAX_ITERATIONS + 1 \<and> model_calls tr = 11"
  using executeRequest_always[of env request w] by (auto simp: MAX_ITERATIONS_def)

theorem conversation_loop_call_bound_witness:
  "always_requests demo_always_env \<and> truthy_str (req_apiKey demo_request) \<and>
   (\<exists>res tr w'. executeRequest demo_always_env demo_request 0 = (Inr res, tr, w') \<and>
        model_calls tr = MAX_ITERATIONS + 1 \<and> model_calls tr = 11)"
proof -
  have k: "truthy_str (req_apiKey demo_request)" by (simp add: demo_request_def)
  from conversation_loop_call_bound[OF demo_always_requests k, of 0] demo_always_requests k
  show ?thesis by blast
qed

text \<open>C1 as stated fails: the same run makes more than 10 model calls.\<close>

theorem conversation_loop_ten_calls_counterexample:
  "always_requests demo_always_env \<and>
   \<not> model_calls (fst (snd (executeRequest demo_always_env demo_request 0))) \<le> 10"
proof -
  have k: "truthy_str (req_apiKey demo_request)" by (simp add: demo_request_def)
  from executeRequest_always[OF demo_always_requests k, of 0]
  obtain res tr w' where "executeRequest demo_always_env demo_request 0 = (Inr res, tr, w')"
    and "model_calls tr = 11" by blast
  then show ?thesis using demo_always_requests by simp
qed

text \<open>
  C2 (as amended). In the timing of a returned run, modelTime is the sum of the
  durations of the model segments. toolsTime is the sum of the wall-clock spans of the
  batches of tool calls, one span per loop iteration: from the clock reading taken when
  the iteration starts to the reading taken in the world its last tool call leaves.
  When the clock never runs backwards, toolsTime is at least the sum of the durations
  of the tool segments.
\<close>

theorem timing_sums:
  "(executeRequest env request w = (Inr res, tr, w') \<longrightarrow>
      t_modelTime (pr_timing res) = sum_durations Model (t_timeSegments (pr_timing res)) \<and>
      t_toolsTime (pr_timing res) = batch_time tr \<and>
      (clock_monotone env \<longrightarrow>
         sum_durations ToolSeg (t_timeSegments (pr_timing res)) \<le> t_toolsTime (pr_timing res))) \<and>
   (iteration env request payload n tcs st tr0 w0 = (Inr (r1, st1), tr1, w1) \<longrightarrow>
      toolsTime st1 = toolsTime st +
        (fst (now env (world_after_calls env request tcs (snd (now env w0)))) - fst (now env w0)) \<and>
      batch_time tr1 = batch_time tr0 +
        (fst (now env (world_after_calls env request tcs (snd (now env w0)))) - fst (now env w0)))"
proof (intro conjI impI)
  assume run: "executeRequest env request w = (Inr res, tr, w')"
  from run obtain r0 st0 w3 n' st' w4 where
    lp: "loop env request (buildPayload request) 0 r0 st0
        [ModelCall (buildPayload request) (Inr r0)] w3 = (Inr (n', st'), tr, w4)"
    and m0: "modelTime st0 = sum_durations Model (timeSegments st0)"
    and t0: "toolsTime st0 = 0" "sum_durations ToolSeg (timeSegments st0) = 0"
    and res: "t_modelTime (pr_timing res) = modelTime st'"
      "t_toolsTime (pr_timing res) = toolsTime st'"
      "t_timeSegments (pr_timing res) = timeSegments st'"
    by (rule executeRequest_InrE)
  have "model_time_inv st'"
    by (rule loop_invariant[where I = "\<lambda>st tr. model_time_inv st", OF lp])
       (auto simp: m0 model_time_inv_def[of st0] intro: iteration_model_time_inv)
  then show "t_modelTime (pr_timing res) = sum_durations Model (t_timeSegments (pr_timing res))"
    using res by (simp add: model_time_inv_def)
  have b0: "batch_time_inv st0 [ModelCall (buildPayload request) (Inr r0)]"
    by (simp add: batch_time_inv_def batch_time_def t0)
  have "batch_time_inv st' tr"
    by (rule loop_invariant[where I = batch_time_inv, OF lp])
       (auto simp: b0 intro: iteration_batch_time_inv)
  then show "t_toolsTime (pr_timing res) = batch_time tr"
    using res by (simp add: batch_time_inv_def)
  show "sum_durations ToolSeg (t_timeSegments (pr_timing res)) \<le> t_toolsTime (pr_timing res)"
    if mono: "clock_monotone env"
  proof -
    have "tool_time_inv st'"
      by (rule loop_invariant[where I = "\<lambda>st tr. tool_time_inv st", OF lp])
         (auto simp: t0 tool_time_inv_def[of st0] intro: iteration_tool_time_inv[OF _ mono])
    then show ?thesis using res by (simp add: tool_time_inv_def)
  qed
next
  assume it: "iteration env request payload n tcs st tr0 w0 = (Inr (r1, st1), tr1, w1)"
  from iteration_span[OF it]
  show "toolsTime st1 = toolsTime st +
        (fst (now env (world_after_calls env request tcs (snd (now env w0)))) - fst (now env w0))"
    and "batch_time tr1 = batch_time tr0 +
        (fst (now env (world_after_calls env request tcs (snd (now env w0)))) - fst (now env w0))"
    by simp_all
qed

theorem timing_sums_witness:
  "clock_monotone (demo_env [demo_call, demo_call2] True) \<and>
   (\<exists>res tr w' r1 st1 tr1 w1.
      executeRequest (demo_env [demo_call, demo_call2] True) demo_request 0 = (Inr res, tr, w') \<and>
      t_modelTime (pr_timing res) = sum_durations Model (t_timeSegments (pr_timing res)) \<and>
      t_toolsTime (pr_timing res) = batch_time tr \<and> batch_time tr = 10 \<and>
      sum_durations ToolSeg (t_timeSegments (pr_timing res)) \<le> t_toolsTime (pr_timing res) \<and>
      iteration (demo_env [demo_call, demo_call2] True) demo_request (buildPayload demo_request) 0
        [demo_call, demo_call2] demo_state [] 0 = (Inr (r1, st1), tr1, w1) \<and>
      toolsTime st1 = toolsTime demo_state + 10 \<and> batch_time tr1 = batch_time [] + 10)"
proof -
  let ?e = "demo_env [demo_call, demo_call2] True"
  from demo_two_calls_returns obtain res tr w' where
    r: "executeRequest ?e demo_request 0 = (Inr res, tr, w')"
    by blast
  from demo_iteration_returns obtain r1 st1 tr1 w1 where
    i: "iteration ?e demo_request (buildPayload demo_request) 0
       [demo_call, demo_call2] demo_state [] 0 = (Inr (r1, st1), tr1, w1)"
    by blast
  have bt: "t_toolsTime (pr_timing res) = 10"
    using r by (auto simp: run_defs demo_defs show_nat.simps)
  have sp: "fst (now ?e (world_after_calls ?e demo_request [demo_call, demo_call2] (snd (now ?e 0))))
              - fst (now ?e 0) = 10"
    by (simp add: call_outcome_def findTool_def spread_def assign_all_def demo_defs)
  from timing_sums[of ?e demo_request 0 res tr w' "buildPayload demo_request" 0
      "[demo_call, demo_call2]" demo_state "[]" 0 r1 st1 tr1 w1]
    r i bt sp demo_clock_monotone[of "[demo_call, demo_call2]" True]
  show ?thesis by (intro conjI exI[of _ res] exI[of _ tr] exI[of _ w'] exI[of _ r1]
      exI[of _ st1] exI[of _ tr1] exI[of _ w1]) simp_all
qed

text \<open>
  C2 as stated fails: a tool call that returns without success takes 5 ms of the batch
  and leaves no segment.
\<close>

theorem tools_time_counterexample:
  "\<not> isl (fst (executeRequest (demo_env [demo_call] False) demo_request 0)) \<and>
   t_toolsTime (pr_timing (projr (fst (executeRequest (demo_env [demo_call] False) demo_request 0)))) = 5 \<and>
   sum_durations ToolSeg (t_timeSegments (pr_timing (projr (fst
      (executeRequest (demo_env [demo_call] False) demo_request 0))))) = 0"
  by (simp add: demo_failed_tool_run sum_durations_def)

text \<open>
  C6. Without an API key executeRequest throws "API key is required for OpenAI" at
  once: no model call and no tool call was issued, and the world is untouched.
\<close>

theorem missing_api_key_fails_first:
  "\<not> truthy_str (req_apiKey request) \<Longrightarrow>
     executeRequest env request w = (Inl (Error ''API key is required for OpenAI'' None), [], w)"
  by (simp add: executeRequest_def)

theorem missing_api_key_fails_first_witness:
  "\<not> truthy_str (req_apiKey (demo_request\<lparr>req_apiKey := None\<rparr>)) \<and>
   executeRequest demo_always_env (demo_request\<lparr>req_apiKey := None\<rparr>) 0 =
     (Inl (Error ''API key is required for OpenAI'' None), [], 0)"
  using missing_api_key_fails_first[of "demo_request\<lparr>req_apiKey := None\<rparr>" demo_always_env 0]
  by simp



subsection \<open>The trace only grows\<close>








subsection \<open>The transcript of a tool batch\<close>

text \<open>
  C3 (as amended). In a loop iteration, the tool calls that succeed (arguments parse,
  tool resolved, execution returns with success) append, in call order, one assistant
  message carrying that single call's declaration followed by one tool-result message
  with its output, and record that output; nothing else is appended, so a call that is
  unresolved, cannot be parsed or fails leaves no message.
\<close>

theorem iteration_transcript:
  "iteration env request payload n tcs st tr w = (Inr (r', st'), tr', w') \<Longrightarrow>
     currentMessages st' = currentMessages st @
       concat (map (call_messages env) (successful_calls env request tcs (snd (now env w)))) \<and>
     toolResults st' = toolResults st @
       map snd (successful_calls env request tcs (snd (now env w))) \<and>
     subseq (map fst (successful_calls env request tcs (snd (now env w)))) tcs"
proof (erule iteration_InrE)
  fix st1 tr1 w2 seg
  assume p: "processToolCalls env request tcs (st, tr, snd (now env w)) = (st1, tr1, w2)"
    and m: "currentMessages st' = currentMessages st1" and t: "toolResults st' = toolResults st1"
  from processToolCalls_outcome[OF p] m t subseq_successful_calls[of env request tcs "snd (now env w)"]
  show ?thesis by simp
qed

theorem iteration_transcript_witness:
  "successful_calls (demo_env [demo_call, demo_call2] True) demo_request [demo_call, demo_call2]
      (snd (now (demo_env [demo_call, demo_call2] True) 0)) =
     [(demo_call, JStr ''found''), (demo_call2, JStr ''found'')] \<and>
   (\<exists>r1 st1 tr1 w1.
     iteration (demo_env [demo_call, demo_call2] True) demo_request (buildPayload demo_request) 0
       [demo_call, demo_call2] demo_state [] 0 = (Inr (r1, st1), tr1, w1) \<and>
     currentMessages st1 = currentMessages demo_state @
        concat (map (call_messages (demo_env [demo_call, demo_call2] True))
          [(demo_call, JStr ''found''), (demo_call2, JStr ''found'')]) \<and>
     toolResults st1 = toolResults demo_state @ [JStr ''found'', JStr ''found''])"
proof -
  let ?e = "demo_env [demo_call, demo_call2] True"
  have sc: "successful_calls ?e demo_request [demo_call, demo_call2] (snd (now ?e 0)) =
     [(demo_call, JStr ''found''), (demo_call2, JStr ''found'')]"
    by (simp add: call_outcome_def findTool_def spread_def assign_all_def demo_defs)
  from demo_iteration_returns obtain r1 st1 tr1 w1 where
    i: "iteration ?e demo_request (buildPayload demo_request) 0
       [demo_call, demo_call2] demo_state [] 0 = (Inr (r1, st1), tr1, w1)"
    by blast
  from iteration_transcript[OF i] sc i show ?thesis by simp
qed

text \<open>
  C3 as stated fails: an iteration with two successful tool calls appends two assistant
  messages, and one whose only tool call fails appends none.
\<close>

theorem one_assistant_message_counterexample:
  "length (assistant_messages (currentMessages (snd (projr (fst
      (iteration (demo_env [demo_call, demo_call2] True) demo_request (buildPayload demo_request) 0
         [demo_call, demo_call2] demo_state [] 0)))))) = 2 \<and>
   length (assistant_messages (currentMessages (snd (projr (fst
      (iteration (demo_env [demo_call] False) demo_request (buildPayload demo_request) 0
         [demo_call] demo_state [] 0)))))) = 0"
  by (simp add: run_defs demo_defs show_nat.simps assistant_messages_def)

subsection \<open>Unresolved tools\<close>

lemma findTool_None: "tc_name tc \<notin> tool_ids request \<Longrightarrow> findTool request (tc_name tc) = None"
  by (cases "req_tools request") (fastforce simp: findTool_def tool_ids_def find_None_iff image_iff)+

text \<open>
  C7. A requested invocation whose tool id is not among the caller's tools is skipped:
  processing it changes neither the transcript, the recorded results, the log of calls
  nor the world, executes no tool and raises nothing, so the batch and the iteration go
  as if the invocation had not been requested.
\<close>

theorem unresolved_tool_skipped:
  "tc_name tc \<notin> tool_ids request \<Longrightarrow>
     processToolCall env request tc s = s \<and>
     processToolCalls env request (xs @ tc # ys) s = processToolCalls env request (xs @ ys) s \<and>
     iteration env request payload n (xs @ tc # ys) st tr w =
       iteration env request payload n (xs @ ys) st tr w"
proof -
  assume u: "tc_name tc \<notin> tool_ids request"
  have a: "processToolCall env request tc s = s" for s
    by (cases s) (simp add: processToolCall_def Let_def findTool_None[OF u] split: option.splits)
  have b: "processToolCalls env request (xs @ tc # ys) s = processToolCalls env request (xs @ ys) s" for s
    by (simp add: processToolCalls_def a)
  show ?thesis using a b by (simp add: iteration_def)
qed

theorem unresolved_tool_skipped_witness:
  "tc_name (demo_call\<lparr>tc_name := ''weather''\<rparr>) \<notin> tool_ids demo_request \<and>
   processToolCall (demo_env [] True) demo_request (demo_call\<lparr>tc_name := ''weather''\<rparr>)
      (demo_state, [], 0) = (demo_state, [], 0) \<and>
   processToolCalls (demo_env [] True) demo_request
      ([demo_call] @ demo_call\<lparr>tc_name := ''weather''\<rparr> # [demo_call2]) (demo_state, [], 0) =
     processToolCalls (demo_env [] True) demo_request ([demo_call] @ [demo_call2]) (demo_state, [], 0)"
proof -
  have u: "tc_name (demo_call\<lparr>tc_name := ''weather''\<rparr>) \<notin> tool_ids demo_request"
    by (simp add: tool_ids_def demo_request_def demo_tool_def)
  from unresolved_tool_skipped[OF u, where env = "demo_env [] True" and s = "(demo_state, [], 0)"
      and xs = "[demo_call]" and ys = "[demo_call2]"] u
  show ?thesis by simp
qed

subsection \<open>Merged arguments\<close>

lemma map_of_set_prop: "map_of (set_prop k v ps) = (map_of ps)(k \<mapsto> v)"
  by (induction ps) (auto simp: fun_upd_twist)

lemma map_of_assign_all:
  "map_of (assign_all src dst) = map_of dst ++ map_of (rev src)"
  unfolding assign_all_def
proof (induction src arbitrary: dst)
  case Nil
  then show ?case by simp
next
  case (Cons x src)
  obtain k v where x: "x = (k, v)" by (cases x)
  show ?case
    by (auto simp: x Cons.IH map_of_set_prop map_add_def fun_eq_iff split: option.splits)
qed

lemma map_of_rev_distinct: "distinct (map fst ps) \<Longrightarrow> map_of (rev ps) = map_of ps"
  by (simp add: map_of_inject_set distinct_rev flip: rev_map)

lemma get_prop_spread:
  assumes "wf_object a" and "wf_object b"
  shows "get_prop (spread a b) k =
           (case get_prop b k of Some v \<Rightarrow> Some v | None \<Rightarrow> get_prop a k)"
  using assms
  by (simp add: get_prop_def spread_def map_of_assign_all map_of_rev_distinct wf_object_def
      map_add_def split: option.splits)

text \<open>
  C8. For a resolved tool invocation whose arguments parse, the tool is executed once,
  with the object \<open>{ ...tool.params, ...toolArgs }\<close>: each key reads the invocation's
  argument when it has one, and the tool's default parameter otherwise.
\<close>

theorem merged_tool_arguments:
  "findTool request (tc_name tc) = Some tool \<Longrightarrow>
   parse env (tc_arguments tc) = Some toolArgs \<Longrightarrow>
   wf_object (ownProps_opt (tool_params tool)) \<Longrightarrow> wf_object (ownProps toolArgs) \<Longrightarrow>
     \<exists>merged.
        fst (snd (processToolCall env request tc (st, tr, w))) = tr @ [ToolExec (tc_name tc) merged] \<and>
        snd (snd (processToolCall env request tc (st, tr, w))) \<in>
          {snd (executeTool env (tc_name tc) merged (snd (now env w))),
           snd (now env (snd (executeTool env (tc_name tc) merged (snd (now env w)))))} \<and>
        (\<forall>k. get_prop merged k =
           (case get_prop (ownProps toolArgs) k of
              Some v \<Rightarrow> Some v
            | None \<Rightarrow> get_prop (ownProps_opt (tool_params tool)) k))"
proof -
  assume f: "findTool request (tc_name tc) = Some tool"
    and p: "parse env (tc_arguments tc) = Some toolArgs"
    and wa: "wf_object (ownProps_opt (tool_params tool))" and wb: "wf_object (ownProps toolArgs)"
  let ?m = "spread (ownProps_opt (tool_params tool)) (ownProps toolArgs)"
  have "fst (snd (processToolCall env request tc (st, tr, w))) = tr @ [ToolExec (tc_name tc) ?m] \<and>
        snd (snd (processToolCall env request tc (st, tr, w))) \<in>
          {snd (executeTool env (tc_name tc) ?m (snd (now env w))),
           snd (now env (snd (executeTool env (tc_name tc) ?m (snd (now env w)))))}"
  proof (cases rule: processToolCall_cases[of env request tc st tr w])
    case skip
    then show ?thesis using f p
      by (simp add: processToolCall_def Let_def split: prod.splits option.splits if_splits)
  next
    case (failed tool' toolArgs' w'')
    then show ?thesis using f p by auto
  next
    case (ok tool' toolArgs' result w2)
    then show ?thesis using f p by auto
  qed
  then show ?thesis using get_prop_spread[OF wa wb] by blast
qed

theorem merged_tool_arguments_witness:
  "findTool demo_request (tc_name demo_call) = Some demo_tool \<and>
   parse ((demo_env [] True)\<lparr>parse := (\<lambda>s. Some (JObj [(''limit'', JNum 1), (''q'', JStr ''isabelle'')]))\<rparr>)
     (tc_arguments demo_call) = Some (JObj [(''limit'', JNum 1), (''q'', JStr ''isabelle'')]) \<and>
   wf_object (ownProps_opt (tool_params demo_tool)) \<and>
   wf_object (ownProps (JObj [(''limit'', JNum 1), (''q'', JStr ''isabelle'')])) \<and>
   (\<exists>merged.
      fst (snd (processToolCall
        ((demo_env [] True)\<lparr>parse := (\<lambda>s. Some (JObj [(''limit'', JNum 1), (''q'', JStr ''isabelle'')]))\<rparr>)
        demo_request demo_call (demo_state, [], 0))) = [] @ [ToolExec (tc_name demo_call) merged] \<and>
      get_prop merged ''limit'' = Some (JNum 1) \<and> get_prop merged ''q'' = Some (JStr ''isabelle''))"
proof -
  let ?e = "(demo_env [] True)\<lparr>parse := (\<lambda>s. Some (JObj [(''limit'', JNum 1), (''q'', JStr ''isabelle'')]))\<rparr>"
  let ?a = "JObj [(''limit'', JNum 1), (''q'', JStr ''isabelle'')]"
  have f: "findTool demo_request (tc_name demo_call) = Some demo_tool"
    by (simp add: findTool_def demo_request_def demo_call_def demo_tool_def)
  have p: "parse ?e (tc_arguments demo_call) = Some ?a" by simp
  have wa: "wf_object (ownProps_opt (tool_params demo_tool))"
    by (simp add: wf_object_def demo_tool_def)
  have wb: "wf_object (ownProps ?a)" by (simp add: wf_object_def)
  from merged_tool_arguments[OF f p wa wb, where st = demo_state and tr = "[]" and w = 0]
  obtain merged where
    m: "fst (snd (processToolCall ?e demo_request demo_call (demo_state, [], 0))) =
          [] @ [ToolExec (tc_name demo_call) merged]"
    and g: "\<forall>k. get_prop merged k =
           (case get_prop (ownProps ?a) k of
              Some v \<Rightarrow> Some v
            | None \<Rightarrow> get_prop (ownProps_opt (tool_params demo_tool)) k)"
    by blast
  have l: "get_prop (ownProps ?a) ''limit'' = Some (JNum 1)"
    and q: "get_prop (ownProps ?a) ''q'' = Some (JStr ''isabelle'')"
    by (simp_all add: get_prop_def)
  have "get_prop merged ''limit'' = Some (JNum 1)" "get_prop merged ''q'' = Some (JStr ''isabelle'')"
    using g l q by simp_all
  with f p wa wb m show ?thesis by blast
qed

section \<open>Properties of the batch runs\<close>

lemma runs_loop_fetch:
  "runs_loop (env\<lparr>fetch := f\<rparr>) i st tr w = runs_loop env i st tr w"
proof (induction env i st tr w rule: runs_loop.induct)
  case (1 env i st tr w)
  show ?case
  proof (cases "i < runCount st \<and> \<not> cancelFlagRef st")
    case False
    then show ?thesis
      by (auto simp: runs_loop.simps[of _ i st])
  next
    case True
    obtain x w1 where h: "handleRunWorkflow env w = (x, w1)" by (metis surj_pair)
    show ?thesis
    proof (cases x)
      case RunRaised
      with True h show ?thesis by (simp add: runs_loop.simps[of _ i st])
    next
      case RunCompleted
      with True h "1.IH"
      show ?thesis
        by (simp add: runs_loop.simps[of _ i st] Let_def)
    qed
  qed
qed

lemma runs_loop_no_stats:
  "runs_loop env i st tr w = (ex, st', tr', w') \<Longrightarrow>
     filter is_stats_call tr' = filter is_stats_call tr"
proof (induction env i st tr w rule: runs_loop.induct)
  case (1 env i st tr w)
  show ?case
  proof (cases "i < runCount st \<and> \<not> cancelFlagRef st")
    case False
    with "1.prems" show ?thesis
      by (auto simp: runs_loop.simps[of _ i st] split: if_splits)
  next
    case True
    obtain x w1 where h: "handleRunWorkflow env w = (x, w1)" by (metis surj_pair)
    show ?thesis
    proof (cases x)
      case RunRaised
      with True h "1.prems" show ?thesis by (auto simp: runs_loop.simps[of _ i st])
    next
      case RunCompleted
      with True h "1.prems"
      have "runs_loop env (i + 1)
              ((if cancelClicked env w1 then cancelButton st else st)\<lparr>completedRuns := i + 1\<rparr>)
              (tr @ [RunStarted (i + 1)]) w1 = (ex, st', tr', w')"
        by (simp add: runs_loop.simps[of _ i st] Let_def)
      from "1.IH"[OF _ _ _ _ _ this] True h RunCompleted show ?thesis by simp
    qed
  qed
qed

lemma runs_loop_cancel:
  assumes fin: "\<forall>j<k. fst (handleRunWorkflow env (world_after env w j)) = RunCompleted"
    and quiet: "\<forall>j. 1 \<le> j \<and> j < k \<longrightarrow> \<not> cancelClicked env (world_after env w j)"
    and click: "cancelClicked env (world_after env w k)"
  shows "i \<le> k \<Longrightarrow> k < runCount st \<Longrightarrow> completedRuns st = i \<Longrightarrow>
         (cancelFlagRef st \<longleftrightarrow> i = k) \<Longrightarrow>
         \<exists>st'. runs_loop env i st tr (world_after env w i) =
                  (Break, st', tr @ map RunStarted [i + 1..<k + 1], world_after env w k) \<and>
               completedRuns st' = k \<and> runCount st' = runCount st \<and>
               notifications st' = notifications st"
proof (induction "k - i" arbitrary: i st tr)
  case 0
  then have ik: "i = k" by simp
  with 0 show ?case by (simp add: runs_loop.simps[of _ k st])
next
  case (Suc d)
  then have lt: "i < k" and nf: "\<not> cancelFlagRef st" by auto
  from fin lt have h: "handleRunWorkflow env (world_after env w i) = (RunCompleted, world_after env w (Suc i))"
    by (metis prod.collapse world_after.simps(2))
  have c: "cancelClicked env (world_after env w (Suc i)) \<longleftrightarrow> Suc i = k"
    using quiet[rule_format, of "Suc i"] click lt
    by (cases "Suc i = k") (auto simp del: world_after.simps)
  define st1 where "st1 = (if cancelClicked env (world_after env w (Suc i)) then cancelButton st else st)\<lparr>completedRuns := Suc i\<rparr>"
  have s1: "completedRuns st1 = Suc i" "runCount st1 = runCount st"
    "notifications st1 = notifications st" "cancelFlagRef st1 \<longleftrightarrow> Suc i = k"
    using c nf by (auto simp: st1_def cancelButton_def simp del: world_after.simps)
  have "\<exists>st'. runs_loop env (Suc i) st1 (tr @ [RunStarted (Suc i)]) (world_after env w (Suc i)) =
                  (Break, st', (tr @ [RunStarted (Suc i)]) @ map RunStarted [Suc i + 1..<k + 1], world_after env w k) \<and>
               completedRuns st' = k \<and> runCount st' = runCount st1 \<and>
               notifications st' = notifications st1"
    by (rule Suc.hyps(1)) (use Suc.hyps(2) Suc.prems lt s1 in \<open>auto simp del: world_after.simps\<close>)
  then obtain st' where r: "runs_loop env (Suc i) st1 (tr @ [RunStarted (Suc i)]) (world_after env w (Suc i)) =
                  (Break, st', (tr @ [RunStarted (Suc i)]) @ map RunStarted [Suc i + 1..<k + 1], world_after env w k)"
    and f: "completedRuns st' = k" "runCount st' = runCount st1" "notifications st' = notifications st1"
    by blast
  have u: "[i + 1..<k + 1] = Suc i # [Suc i + 1..<k + 1]"
    using lt by (simp add: upt_conv_Cons)
  have "runs_loop env i st tr (world_after env w i) =
          runs_loop env (Suc i) st1 (tr @ [RunStarted (Suc i)]) (world_after env w (Suc i))"
    using lt Suc.prems(2) nf h
    by (simp add: runs_loop.simps[of _ i st] Let_def st1_def del: world_after.simps)
  with r f s1 u show ?case by (intro exI[of _ st']) (simp del: world_after.simps)
qed

lemma runs_started_map: "runs_started (map RunStarted ns) = ns"
  by (induction ns) simp_all

lemmas batch_defs =
  handleMultipleRuns_def runs_loop.simps updateStats_def cancelButton_def or_default_def Let_def

lemmas demo_batch_defs = demo_batch_env_def demo_control_bar_def

text \<open>
  C5. In a batch of N runs where the cancel button is clicked while run k is awaited
  (1 \<le> k < N) and the first k runs complete, the flag is seen before run k + 1 starts:
  exactly the runs 1..k were started, completedRuns is k, and the batch reports
  "Workflow run cancelled" as an info notification, not an error. A set flag stops the
  loop before any further run, whatever the position.
\<close>

theorem batch_cancelled_after_run:
  "\<not> isExecuting st \<Longrightarrow> \<not> isMultiRunning st \<Longrightarrow> 1 \<le> k \<Longrightarrow> k < runCount st \<Longrightarrow>
   \<forall>j<k. fst (handleRunWorkflow env (world_after env w j)) = RunCompleted \<Longrightarrow>
   \<forall>j. 1 \<le> j \<and> j < k \<longrightarrow> \<not> cancelClicked env (world_after env w j) \<Longrightarrow>
   cancelClicked env (world_after env w k) \<Longrightarrow>
     (\<exists>st' tr. handleMultipleRuns env st w = (st', Some cancelled, tr, world_after env w k) \<and>
        completedRuns st' = k \<and> runs_started tr = [1..<k + 1] \<and>
        notifications st' = notifications st @
          [\<lparr>n_type = ''info'', n_message = ''Workflow run cancelled'',
            n_workflowId = activeWorkflowId st\<rparr>]) \<and>
     (\<forall>i s t v. i < runCount s \<and> cancelFlagRef s \<longrightarrow> runs_loop env i s t v = (Break, s, t, v))"
proof -
  assume g: "\<not> isExecuting st" "\<not> isMultiRunning st" and k: "1 \<le> k" "k < runCount st"
    and fin: "\<forall>j<k. fst (handleRunWorkflow env (world_after env w j)) = RunCompleted"
    and quiet: "\<forall>j. 1 \<le> j \<and> j < k \<longrightarrow> \<not> cancelClicked env (world_after env w j)"
    and click: "cancelClicked env (world_after env w k)"
  define st0 where "st0 = st\<lparr>completedRuns := 0, isMultiRunning := True, isCancelling := False,
                     cancelFlagRef := False, showRunProgress := (runCount st > 1)\<rparr>"
  have "\<exists>st'. runs_loop env 0 st0 [] (world_after env w 0) =
                  (Break, st', [] @ map RunStarted [0 + 1..<k + 1], world_after env w k) \<and>
               completedRuns st' = k \<and> runCount st' = runCount st0 \<and>
               notifications st' = notifications st0"
    by (rule runs_loop_cancel[OF fin quiet click]) (use k in \<open>auto simp: st0_def\<close>)
  then obtain st1 where
    r: "runs_loop env 0 st0 [] w = (Break, st1, map RunStarted [1..<k + 1], world_after env w k)"
    and f: "completedRuns st1 = k" "notifications st1 = notifications st" 
    by (auto simp: st0_def)
  have a: "\<exists>st' tr. handleMultipleRuns env st w = (st', Some cancelled, tr, world_after env w k) \<and>
        completedRuns st' = k \<and> runs_started tr = [1..<k + 1] \<and>
        notifications st' = notifications st @
          [\<lparr>n_type = ''info'', n_message = ''Workflow run cancelled'',
            n_workflowId = activeWorkflowId st\<rparr>]"
    using g k r[unfolded st0_def] f
    by (simp add: handleMultipleRuns_def Let_def runs_started_map del: world_after.simps upt_Suc)
  have b: "\<forall>i s t v. i < runCount s \<and> cancelFlagRef s \<longrightarrow> runs_loop env i s t v = (Break, s, t, v)"
    by (simp add: runs_loop.simps)
  from a b show ?thesis by blast
qed

theorem batch_cancelled_after_run_witness:
  "\<not> isExecuting demo_control_bar \<and> \<not> isMultiRunning demo_control_bar \<and>
   (1::nat) \<le> 2 \<and> 2 < runCount demo_control_bar \<and>
   cancelClicked (demo_batch_env 2 FetchResolves) (world_after (demo_batch_env 2 FetchResolves) 0 2) \<and>
   (\<exists>st' tr. handleMultipleRuns (demo_batch_env 2 FetchResolves) demo_control_bar 0 =
        (st', Some cancelled, tr, world_after (demo_batch_env 2 FetchResolves) 0 2) \<and>
      completedRuns st' = 2 \<and> runs_started tr = [1..<2 + 1] \<and>
      notifications st' = notifications demo_control_bar @
          [\<lparr>n_type = ''info'', n_message = ''Workflow run cancelled'',
            n_workflowId = activeWorkflowId demo_control_bar\<rparr>])"
proof -
  let ?e = "demo_batch_env 2 FetchResolves"
  have wa: "world_after ?e 0 j = j" for j
    by (induction j) (simp_all add: demo_batch_env_def)
  have g: "\<not> isExecuting demo_control_bar" "\<not> isMultiRunning demo_control_bar"
    "(1::nat) \<le> 2" "2 < runCount demo_control_bar"
    by (simp_all add: demo_control_bar_def)
  have fin: "\<forall>j<2. fst (handleRunWorkflow ?e (world_after ?e 0 j)) = RunCompleted"
    by (simp add: demo_batch_env_def)
  have quiet: "\<forall>j. 1 \<le> j \<and> j < 2 \<longrightarrow> \<not> cancelClicked ?e (world_after ?e 0 j)"
    unfolding wa by (simp add: demo_batch_env_def)
  have click: "cancelClicked ?e (world_after ?e 0 2)"
    unfolding wa by (simp add: demo_batch_env_def)
  from batch_cancelled_after_run[OF g fin quiet click] g click show ?thesis by blast
qed

text \<open>
  C4 (as amended). The statistics call is issued, once, exactly after a batch whose
  runs all completed without cancellation or error while a workflow is active; it is not
  issued after a cancelled batch. Whatever \<open>fetch\<close> does, the state the batch leaves
  and the outcome it reports are the same.
\<close>

theorem stats_side_call:
  "handleMultipleRuns env st w = (st', oc, tr, w') \<Longrightarrow>
     length (filter is_stats_call tr) =
       (if oc = Some completed \<and> truthy_str (activeWorkflowId st) then 1 else 0) \<and>
     fst (handleMultipleRuns (env\<lparr>fetch := f\<rparr>) st w) = st' \<and>
     fst (snd (handleMultipleRuns (env\<lparr>fetch := f\<rparr>) st w)) = oc"
proof -
  assume h: "handleMultipleRuns env st w = (st', oc, tr, w')"
  define st0 where "st0 = st\<lparr>completedRuns := 0, isMultiRunning := True, isCancelling := False,
                     cancelFlagRef := False, showRunProgress := (runCount st > 1)\<rparr>"
  obtain ex st1 tr1 w1 where r: "runs_loop env 0 st0 [] w = (ex, st1, tr1, w1)"
    by (metis prod_cases4)
  have r': "runs_loop (env\<lparr>fetch := f\<rparr>) 0 st0 [] w = (ex, st1, tr1, w1)"
    by (simp add: runs_loop_fetch r)
  from runs_loop_no_stats[OF r] have ns: "filter is_stats_call tr1 = []" by simp
  obtain x w2 where fe: "fetch env (''/api/workflows/'' @ or_default (activeWorkflowId st) [] @
      ''/stats?runs='' @ show_nat (runCount st)) w1 = (x, w2)" by (metis surj_pair)
  obtain y w3 where fe': "f (''/api/workflows/'' @ or_default (activeWorkflowId st) [] @
      ''/stats?runs='' @ show_nat (runCount st)) w1 = (y, w3)" by (metis surj_pair)
  show ?thesis
  proof (cases "isExecuting st \<or> isMultiRunning st \<or> runCount st \<le> 0")
    case True
    with h show ?thesis by (auto simp: handleMultipleRuns_def)
  next
    case False
    show ?thesis
    proof (cases ex)
      case AllRuns
      with h False r[unfolded st0_def] r'[unfolded st0_def] ns fe fe' show ?thesis
        by (cases x; cases y)
           (auto simp: handleMultipleRuns_def updateStats_def Let_def split: if_splits)
    next
      case Break
      with h False r[unfolded st0_def] r'[unfolded st0_def] ns show ?thesis
        by (auto simp: handleMultipleRuns_def Let_def)
    next
      case Thrown
      with h False r[unfolded st0_def] r'[unfolded st0_def] ns show ?thesis
        by (auto simp: handleMultipleRuns_def Let_def)
    qed
  qed
qed

lemma demo_batch_completes:
  "handleMultipleRuns (demo_batch_env 7 FetchRejects) demo_control_bar 0 =
     (demo_control_bar\<lparr>completedRuns := 5, showRunProgress := True, hideProgressTimer := True,
        notifications := [\<lparr>n_type = ''console'', n_message = ''Completed 0 workflow runs'',
                           n_workflowId = Some ''wf1''\<rparr>]\<rparr>,
      Some completed,
      [RunStarted 1, RunStarted 2, RunStarted 3, RunStarted 4, RunStarted 5,
       StatsCall ''/api/workflows/wf1/stats?runs=5'',
       LogError ''Failed to update workflow stats''],
      5)"
  by (simp add: batch_defs demo_batch_defs show_nat.simps)

theorem stats_side_call_witness:
  "handleMultipleRuns (demo_batch_env 7 FetchRejects) demo_control_bar 0 =
     (demo_control_bar\<lparr>completedRuns := 5, showRunProgress := True, hideProgressTimer := True,
        notifications := [\<lparr>n_type = ''console'', n_message = ''Completed 0 workflow runs'',
                           n_workflowId = Some ''wf1''\<rparr>]\<rparr>,
      Some completed,
      [RunStarted 1, RunStarted 2, RunStarted 3, RunStarted 4, RunStarted 5,
       StatsCall ''/api/workflows/wf1/stats?runs=5'',
       LogError ''Failed to update workflow stats''],
      5) \<and>
   truthy_str (activeWorkflowId demo_control_bar) \<and>
   length (filter is_stats_call
      [RunStarted 1, RunStarted 2, RunStarted 3, RunStarted 4, RunStarted 5,
       StatsCall ''/api/workflows/wf1/stats?runs=5'',
       LogError ''Failed to update workflow stats'']) = 1 \<and>
   fst (snd (handleMultipleRuns
      ((demo_batch_env 7 FetchRejects)\<lparr>fetch := (\<lambda>url w. (FetchResolves, w))\<rparr>)
      demo_control_bar 0)) = Some completed"
proof -
  have a: "truthy_str (activeWorkflowId demo_control_bar)" by (simp add: demo_control_bar_def)
  from stats_side_call[OF demo_batch_completes, of "\<lambda>url w. (FetchResolves, w)"] a
    demo_batch_completes
  show ?thesis by simp
qed

text \<open>
  C4 as stated fails: a batch cancelled after its second run reports the outcome
  cancelled and has issued no statistics call.
\<close>

theorem cancelled_batch_stats_counterexample:
  "fst (snd (handleMultipleRuns (demo_batch_env 2 FetchResolves) demo_control_bar 0)) = Some cancelled \<and>
   completedRuns (fst (handleMultipleRuns (demo_batch_env 2 FetchResolves) demo_control_bar 0)) = 2 \<and>
   filter is_stats_call
     (fst (snd (snd (handleMultipleRuns (demo_batch_env 2 FetchResolves) demo_control_bar 0)))) = []"
  by (simp add: batch_defs demo_batch_defs)

end
